theory Spec2Isabelle
  imports Complex_Main "HOL-Library.AList"
begin

section \<open>Threat report model (agent/core/agent.py)\<close>

text \<open>
  Python floats are modelled as mathematical reals throughout: sums, products and
  quotients are exact. Python ints are \<open>int\<close> or \<open>nat\<close>.
\<close>

subsection \<open>Enumerations and data classes\<close>

text \<open>\<open>class ThreatLevel(IntEnum)\<close>: SAFE = 0 .. CRITICAL = 4.\<close>

datatype ThreatLevel = SAFE | LOW | MEDIUM | HIGH | CRITICAL

fun level_value :: "ThreatLevel \<Rightarrow> nat" where
  "level_value SAFE = 0"
| "level_value LOW = 1"
| "level_value MEDIUM = 2"
| "level_value HIGH = 3"
| "level_value CRITICAL = 4"

text \<open>An \<open>IntEnum\<close> compares by its integer value.\<close>

instantiation ThreatLevel :: linorder
begin

definition less_eq_ThreatLevel :: "ThreatLevel \<Rightarrow> ThreatLevel \<Rightarrow> bool" where
  "less_eq_ThreatLevel a b = (level_value a \<le> level_value b)"

definition less_ThreatLevel :: "ThreatLevel \<Rightarrow> ThreatLevel \<Rightarrow> bool" where
  "less_ThreatLevel a b = (level_value a < level_value b)"

instance
proof
  fix x y z :: ThreatLevel
  show "(x < y) = (x \<le> y \<and> \<not> y \<le> x)"
    by (auto simp: less_eq_ThreatLevel_def less_ThreatLevel_def)
  show "x \<le> x"
    by (simp add: less_eq_ThreatLevel_def)
  show "x \<le> y \<Longrightarrow> y \<le> z \<Longrightarrow> x \<le> z"
    by (simp add: less_eq_ThreatLevel_def)
  show "x \<le> y \<Longrightarrow> y \<le> x \<Longrightarrow> x = y"
    by (cases x; cases y; simp add: less_eq_ThreatLevel_def)
  show "x \<le> y \<or> y \<le> x"
    by (auto simp: less_eq_ThreatLevel_def)
qed

end

text \<open>\<open>class ThreatType(str, Enum)\<close>.\<close>

datatype ThreatType = PHISHING | MALWARE | XSS | PRIVACY | CERT

text \<open>
  The texts of the source (descriptions, indicators, recommendations) are Korean f-strings. A text
  is represented by the name of its template together with the values interpolated into
  it; no operation of the source reads a text back.
\<close>

datatype description =
    UrlHeuristicDescription real
  | ContentHeuristicDescription real
  | OtherDescription string

datatype indicator =
    IndIpAddress
  | IndNoHttps
  | IndSuspiciousTld string
  | IndManySubdomains nat
  | IndAtSymbol
  | IndHomoglyphs string
  | IndTyposquatting string
  | IndBrandName
  | IndUnusualPort "nat option"
  | IndLongUrl nat
  | IndHighEntropy real
  | OtherIndicator string

text \<open>
  \<open>@dataclass ThreatDetail\<close>. The field \<open>metadata\<close> (an open \<open>dict[str, Any]\<close> that is only
  serialised) is left out.
\<close>

record ThreatDetail =
  threat_type :: ThreatType
  threat_level :: ThreatLevel
  confidence :: real
  description :: description
  indicators :: "indicator list"

datatype recommendation =
    RecSafe
  | RecPhishingNoPersonalData
  | RecPhishingCheckUrl
  | RecMalwareNoDownload
  | RecMalwareJsBlocked
  | RecXss
  | RecPrivacy
  | RecHighLeaveSite
  | RecMediumCaution

text \<open>\<open>@dataclass ThreatReport\<close>.\<close>

record ThreatReport =
  url :: string
  overall_level :: ThreatLevel
  overall_score :: real
  details :: "ThreatDetail list"
  recommendations :: "recommendation list"
  analysis_time_ms :: real
  cached :: bool
  timestamp :: real

text \<open>\<open>ThreatReport(url=url)\<close> at time \<open>now\<close> (\<open>time.time()\<close>): every other field its default.\<close>

definition new_report :: "string \<Rightarrow> real \<Rightarrow> ThreatReport" where
  "new_report u now =
     \<lparr>url = u, overall_level = SAFE, overall_score = 0, details = [],
      recommendations = [], analysis_time_ms = 0, cached = False, timestamp = now\<rparr>"

subsection \<open>Roll-up\<close>

text \<open>\<open>sum(d.confidence for d in self.details)\<close>\<close>

definition total_weight :: "ThreatDetail list \<Rightarrow> real" where
  "total_weight ds = sum_list (map confidence ds)"

text \<open>\<open>sum(d.confidence * (d.threat_level / ThreatLevel.CRITICAL) for d in self.details)\<close>\<close>

definition weighted_sum :: "ThreatDetail list \<Rightarrow> real" where
  "weighted_sum ds =
     sum_list (map (\<lambda>d. confidence d *
                      (real (level_value (threat_level d)) / real (level_value CRITICAL))) ds)"

text \<open>
  \<open>max(d.threat_level for d in self.details)\<close> on a non-empty list: Python's \<open>max\<close> runs
  through the items and keeps the largest seen so far.
\<close>

fun max_level :: "ThreatDetail list \<Rightarrow> ThreatLevel" where
  "max_level [] = SAFE"
| "max_level (d # ds) = fold (\<lambda>e m. if m < threat_level e then threat_level e else m) ds (threat_level d)"

text \<open>\<open>ThreatReport._recalculate\<close>\<close>

definition recalculate :: "ThreatReport \<Rightarrow> ThreatReport" where
  "recalculate r =
     (if details r = [] then r\<lparr>overall_level := SAFE, overall_score := 0\<rparr>
      else
        let r1 = r\<lparr>overall_level := max_level (details r)\<rparr>;
            tw = total_weight (details r)
        in if tw > 0
           then r1\<lparr>overall_score := min 1 (weighted_sum (details r) / tw)\<rparr>
           else r1\<lparr>overall_score := 0\<rparr>)"

text \<open>\<open>ThreatReport.add_detail\<close>\<close>

definition add_detail :: "ThreatReport \<Rightarrow> ThreatDetail \<Rightarrow> ThreatReport" where
  "add_detail r d = recalculate (r\<lparr>details := details r @ [d]\<rparr>)"

text \<open>The spec's clamp of a value to an interval.\<close>

definition clamp :: "real \<Rightarrow> real \<Rightarrow> real \<Rightarrow> real" where
  "clamp x lo hi = max lo (min hi x)"

text \<open>\<open>SecurityAgent._generate_recommendations\<close>\<close>

definition generate_recommendations :: "ThreatReport \<Rightarrow> recommendation list" where
  "generate_recommendations r =
     (if overall_level r = SAFE then [RecSafe]
      else
        let threat_types_found = set (map threat_type (details r)) in
          (if PHISHING \<in> threat_types_found
           then [RecPhishingNoPersonalData, RecPhishingCheckUrl] else [])
        @ (if MALWARE \<in> threat_types_found
           then [RecMalwareNoDownload, RecMalwareJsBlocked] else [])
        @ (if XSS \<in> threat_types_found then [RecXss] else [])
        @ (if PRIVACY \<in> threat_types_found then [RecPrivacy] else [])
        @ (if HIGH \<le> overall_level r then [RecHighLeaveSite]
           else if MEDIUM \<le> overall_level r then [RecMediumCaution] else []))"

section \<open>Result cache (agent/core/agent.py)\<close>

text \<open>
  Reports are Python objects: the cache, the caller of an analysis and the RPC layer hold
  references to the same object. A reference is an address of an object store; the store
  maps every address to the current value of the object there.
\<close>

type_synonym ref = nat

text \<open>\<open>@dataclass _CacheEntry\<close>: \<open>report\<close> is a reference to the report object.\<close>

record CacheEntry =
  report :: ref
  created_at :: real
  ttl :: real

text \<open>\<open>_CacheEntry.is_expired\<close>, with \<open>now\<close> the value of \<open>time.time()\<close>.\<close>

definition is_expired :: "CacheEntry \<Rightarrow> real \<Rightarrow> bool" where
  "is_expired e now = (now - created_at e > ttl e)"

text \<open>The cache fields of \<open>LLMConfig\<close> (agent/core/config.py).\<close>

record LLMConfig =
  cache_enabled :: bool
  cache_ttl_seconds :: int
  cache_max_size :: int

definition default_llm_config :: LLMConfig where
  "default_llm_config = \<lparr>cache_enabled = True, cache_ttl_seconds = 3600, cache_max_size = 1000\<rparr>"

text \<open>
  The state of a \<open>SecurityAgent\<close>: the object store, the next free address,
  \<open>self._cache\<close> (a Python \<open>dict\<close>, which keeps its keys in insertion order: an association
  list with \<open>AList.update\<close>, \<open>AList.delete\<close> and \<open>map_of\<close>), and \<open>self._initialized\<close>.
\<close>

record AgentState =
  heap :: "ref \<Rightarrow> ThreatReport"
  next_ref :: ref
  cache :: "(string \<times> CacheEntry) list"
  initialized :: bool

datatype error =
    NotInitialized
  | StopIteration
  | AnalyzerError string

text \<open>\<open>SecurityAgent._get_cached\<close>: the result and the state afterwards.\<close>

definition get_cached :: "LLMConfig \<Rightarrow> real \<Rightarrow> string \<Rightarrow> AgentState \<Rightarrow> ref option \<times> AgentState" where
  "get_cached cfg now key s =
     (if \<not> cache_enabled cfg then (None, s)
      else
        (case map_of (cache s) key of
           None \<Rightarrow> (None, s)
         | Some entry \<Rightarrow>
             if is_expired entry now
             then (None, s\<lparr>cache := AList.delete key (cache s)\<rparr>)
             else
               let r = report entry
               in (Some r, s\<lparr>heap := (heap s)(r := (heap s r)\<lparr>cached := True\<rparr>)\<rparr>)))"

text \<open>
  \<open>SecurityAgent._set_cached\<close>. \<open>next(iter(self._cache))\<close> is the first key of the dict and
  raises \<open>StopIteration\<close> on an empty one.
\<close>

definition set_cached ::
    "LLMConfig \<Rightarrow> real \<Rightarrow> string \<Rightarrow> ref \<Rightarrow> AgentState \<Rightarrow> error + AgentState" where
  "set_cached cfg now key r s =
     (if \<not> cache_enabled cfg then Inr s
      else
        let entry = \<lparr>report = r, created_at = now, ttl = real_of_int (cache_ttl_seconds cfg)\<rparr>
        in if int (length (cache s)) \<ge> cache_max_size cfg
           then (case cache s of
                   [] \<Rightarrow> Inl StopIteration
                 | (oldest_key, _) # _ \<Rightarrow>
                     Inr (s\<lparr>cache := AList.update key entry (AList.delete oldest_key (cache s))\<rparr>))
           else Inr (s\<lparr>cache := AList.update key entry (cache s)\<rparr>))"

section \<open>Python strings and exceptions\<close>

text \<open>What a call gives: the exception it raises (by the name of its class) or the value it
  returns.\<close>

datatype 'a outcome = Raises string | Returns 'a


definition isdigit :: "char \<Rightarrow> bool" where
  "isdigit c = (c \<in> set ''0123456789'')"

definition isalpha :: "char \<Rightarrow> bool" where
  "isalpha c = (c \<in> set ''abcdefghijklmnopqrstuvwxyz'' \<or> c \<in> set ''ABCDEFGHIJKLMNOPQRSTUVWXYZ'')"

definition isalnum :: "char \<Rightarrow> bool" where
  "isalnum c = (isalpha c \<or> isdigit c)"

definition lower_char :: "char \<Rightarrow> char" where
  "lower_char c =
     (case map_of (zip ''ABCDEFGHIJKLMNOPQRSTUVWXYZ'' ''abcdefghijklmnopqrstuvwxyz'') c of
        Some l \<Rightarrow> l
      | None \<Rightarrow> c)"

definition lower :: "string \<Rightarrow> string" where
  "lower s = map lower_char s"

fun startswith :: "string \<Rightarrow> string \<Rightarrow> bool" where
  "startswith s [] = True"
| "startswith [] (p # ps) = False"
| "startswith (c # cs) (p # ps) = (c = p \<and> startswith cs ps)"

fun contains :: "string \<Rightarrow> string \<Rightarrow> bool" where
  "contains [] sub = (sub = [])"
| "contains (c # cs) sub = (startswith (c # cs) sub \<or> contains cs sub)"

definition endswith :: "string \<Rightarrow> string \<Rightarrow> bool" where
  "endswith s suffix = startswith (rev s) (rev suffix)"

fun split_char :: "char \<Rightarrow> string \<Rightarrow> string list" where
  "split_char sep [] = [[]]"
| "split_char sep (c # cs) =
     (if c = sep then [] # split_char sep cs
      else (case split_char sep cs of
              [] \<Rightarrow> [[c]]
            | p # ps \<Rightarrow> (c # p) # ps))"

fun join :: "string \<Rightarrow> string list \<Rightarrow> string" where
  "join sep [] = []"
| "join sep [p] = p"
| "join sep (p # ps) = p @ sep @ join sep ps"

definition partition_char :: "char \<Rightarrow> string \<Rightarrow> string \<times> bool \<times> string" where
  "partition_char sep s =
     (if sep \<in> set s then (takeWhile (\<lambda>c. c \<noteq> sep) s, True, tl (dropWhile (\<lambda>c. c \<noteq> sep) s))
      else (s, False, []))"

definition rpartition_char :: "char \<Rightarrow> string \<Rightarrow> string \<times> bool \<times> string" where
  "rpartition_char sep s =
     (if sep \<in> set s
      then (rev (tl (dropWhile (\<lambda>c. c \<noteq> sep) (rev s))), True, rev (takeWhile (\<lambda>c. c \<noteq> sep) (rev s)))
      else ([], False, s))"

fun int_of_digits :: "string \<Rightarrow> nat \<Rightarrow> nat" where
  "int_of_digits [] acc = acc"
| "int_of_digits (c # cs) acc = int_of_digits cs (10 * acc + (of_char c - 48))"

subsection \<open>urllib.parse.urlparse\<close>

text \<open>
  \<open>urlparse\<close> is the standard library's. The model follows \<open>urlsplit\<close>: the scheme up to
  the first colon when it is a letter followed by scheme characters, the network location
  after \<open>//\<close> up to the first of \<open>/?#\<close>, then the fragment, the query and, for the schemes
  that have them, the parameters of the last path segment. It raises \<open>ValueError\<close> on an
  unmatched bracket in the network location; the stripping of control characters and the
  validation of a bracketed host are left out. The properties \<open>hostname\<close> and \<open>port\<close> are
  those of \<open>_NetlocResultMixinStr\<close>; \<open>port\<close> raises \<open>ValueError\<close> when the port is not a
  decimal number or is above 65535.
\<close>

record ParseResult =
  scheme :: string
  netloc :: string
  path :: string
  params :: string
  query :: string
  fragment :: string

definition scheme_chars :: "char set" where
  "scheme_chars = set ''abcdefghijklmnopqrstuvwxyzABCDEFGHIJKLMNOPQRSTUVWXYZ0123456789+-.''"

definition uses_params :: "string list" where
  "uses_params = ['''', ''ftp'', ''hdl'', ''prospero'', ''http'', ''imap'', ''https'', ''shttp'',
                  ''rtsp'', ''rtspu'', ''sip'', ''sips'', ''mms'', ''sftp'', ''tel'']"

definition split_scheme :: "string \<Rightarrow> string \<times> string" where
  "split_scheme u =
     (let before = takeWhile (\<lambda>c. c \<noteq> CHR '':'') u
      in if CHR '':'' \<in> set u \<and> before \<noteq> [] \<and> isalpha (hd before)
            \<and> list_all (\<lambda>c. c \<in> scheme_chars) before
         then (lower before, tl (dropWhile (\<lambda>c. c \<noteq> CHR '':'') u))
         else ([], u))"

definition split_netloc :: "string \<Rightarrow> string \<times> string" where
  "split_netloc u =
     (if startswith u ''//''
      then (takeWhile (\<lambda>c. c \<notin> set ''/?#'') (drop 2 u),
            dropWhile (\<lambda>c. c \<notin> set ''/?#'') (drop 2 u))
      else ([], u))"

definition splitparams :: "string \<Rightarrow> string \<times> string" where
  "splitparams u =
     (let last_segment = rev (takeWhile (\<lambda>c. c \<noteq> CHR ''/'') (rev u));
          before = take (length u - length last_segment) u
      in if CHR '';'' \<in> set last_segment
         then (before @ takeWhile (\<lambda>c. c \<noteq> CHR '';'') last_segment,
               tl (dropWhile (\<lambda>c. c \<noteq> CHR '';'') last_segment))
         else (u, []))"

definition urlparse :: "string \<Rightarrow> ParseResult outcome" where
  "urlparse u =
     (let (sch, rest1) = split_scheme u;
          (nl, rest2) = split_netloc rest1
      in if (CHR ''['' \<in> set nl \<and> CHR '']'' \<notin> set nl) \<or> (CHR '']'' \<in> set nl \<and> CHR ''['' \<notin> set nl)
         then Raises ''ValueError''
         else
           let (rest3, _, frag) = partition_char CHR ''#'' rest2;
               (rest4, _, qs) = partition_char CHR ''?'' rest3;
               (p, ps) = (if sch \<in> set uses_params \<and> CHR '';'' \<in> set rest4
                          then splitparams rest4 else (rest4, []))
           in Returns \<lparr>scheme = sch, netloc = nl, path = p, params = ps, query = qs,
                       fragment = frag\<rparr>)"

definition hostinfo :: "string \<Rightarrow> string \<times> string option" where
  "hostinfo nl =
     (let (_, _, hi) = rpartition_char CHR ''@'' nl;
          (_, have_open_br, bracketed) = partition_char CHR ''['' hi
      in if have_open_br
         then (let (h, _, after) = partition_char CHR '']'' bracketed;
                   (_, _, prt) = partition_char CHR '':'' after
               in (h, if prt = [] then None else Some prt))
         else (let (h, _, prt) = partition_char CHR '':'' hi
               in (h, if prt = [] then None else Some prt)))"

definition hostname :: "ParseResult \<Rightarrow> string option" where
  "hostname p =
     (let h = fst (hostinfo (netloc p))
      in if h = [] then None
         else (let (name, percent, zone) = partition_char CHR ''%'' h
               in Some (lower name @ (if percent then ''%'' else []) @ zone)))"

definition port :: "ParseResult \<Rightarrow> nat option outcome" where
  "port p =
     (case snd (hostinfo (netloc p)) of
        None \<Rightarrow> Returns None
      | Some prt \<Rightarrow>
          if list_all isdigit prt
          then (if int_of_digits prt 0 \<le> 65535 then Returns (Some (int_of_digits prt 0))
                else Raises ''ValueError'')
          else Raises ''ValueError'')"

section \<open>Phishing analyzer (agent/analyzers/phishing_analyzer.py)\<close>

text \<open>
  Strings are lists of 8-bit characters; on them \<open>str.isdigit\<close>, \<open>str.isalnum\<close> and
  \<open>str.lower\<close> are the ASCII ones. The keys of \<open>HOMOGLYPH_MAP\<close> are given by their code
  points (Cyrillic, Greek, IPA, letter-like and full-width characters).
\<close>

definition HOMOGLYPH_MAP :: "(nat \<times> char) list" where
  "HOMOGLYPH_MAP =
     [(1072, CHR ''a''), (1077, CHR ''e''), (1086, CHR ''o''), (1088, CHR ''p''),
      (1089, CHR ''c''), (1091, CHR ''y''), (1093, CHR ''x''), (1109, CHR ''s''),
      (1110, CHR ''i''), (1112, CHR ''j''), (1281, CHR ''d''), (609, CHR ''g''),
      (617, CHR ''l''), (1400, CHR ''n''), (957, CHR ''v''), (964, CHR ''t''),
      (969, CHR ''w''), (8467, CHR ''l''), (65296, CHR ''0''), (65297, CHR ''1''),
      (8560, CHR ''i'')]"

definition SUSPICIOUS_TLDS :: "string set" where
  "SUSPICIOUS_TLDS = set
     [''.tk'', ''.ml'', ''.ga'', ''.cf'', ''.gq'',
      ''.top'', ''.xyz'', ''.club'', ''.work'', ''.buzz'',
      ''.icu'', ''.cam'', ''.rest'', ''.surf'', ''.monster'',
      ''.uno'', ''.click'', ''.link'', ''.info'', ''.pw'',
      ''.cc'', ''.ws'', ''.ru'', ''.cn'']"

definition FAMOUS_DOMAINS :: "string list" where
  "FAMOUS_DOMAINS =
     [''google.com'', ''facebook.com'', ''amazon.com'', ''apple.com'',
      ''microsoft.com'', ''netflix.com'', ''paypal.com'', ''instagram.com'',
      ''twitter.com'', ''linkedin.com'', ''github.com'', ''yahoo.com'',
      ''dropbox.com'', ''chase.com'', ''wellsfargo.com'', ''bankofamerica.com'',
      ''citibank.com'', ''usbank.com'', ''ebay.com'', ''walmart.com'',
      ''naver.com'', ''kakao.com'', ''daum.net'', ''samsung.com'',
      ''coinbase.com'', ''binance.com'', ''blockchain.com'',
      ''icloud.com'', ''outlook.com'', ''gmail.com'']"

text \<open>\<open>self._ip_pattern.match(domain)\<close> for \<open>^(\d{1,3}\.){3}\d{1,3}$\<close>: four groups of one to
  three digits, separated by dots.\<close>

definition ip_pattern_match :: "string \<Rightarrow> bool" where
  "ip_pattern_match domain =
     (let groups = split_char CHR ''.'' domain
      in length groups = 4
         \<and> list_all (\<lambda>g. 1 \<le> length g \<and> length g \<le> 3 \<and> list_all isdigit g) groups)"

text \<open>\<open>len(self._encoded_pattern.findall(url))\<close> for \<open>%[0-9a-fA-F]{2}\<close>: the matches are found
  from left to right and do not overlap.\<close>

definition ishex :: "char \<Rightarrow> bool" where
  "ishex c = (c \<in> set ''0123456789abcdefABCDEF'')"

fun encoded_count :: "string \<Rightarrow> nat" where
  "encoded_count (a # b # c # rest) =
     (if a = CHR ''%'' \<and> ishex b \<and> ishex c then Suc (encoded_count rest)
      else encoded_count (b # c # rest))"
| "encoded_count rest = 0"

text \<open>\<open>PhishingAnalyzer._calculate_entropy\<close>: the sum runs over the distinct characters.\<close>

definition calculate_entropy :: "string \<Rightarrow> real" where
  "calculate_entropy text =
     (if text = [] then 0
      else - sum_list (map (\<lambda>c. let probability = real (count_list text c) / real (length text)
                                 in if probability > 0 then probability * log 2 probability else 0)
                           (remdups text)))"

text \<open>\<open>PhishingAnalyzer._detect_homoglyphs\<close>: detected, chars, normalized.\<close>

fun detect_homoglyphs_loop :: "string \<Rightarrow> string \<Rightarrow> string \<Rightarrow> string \<times> string" where
  "detect_homoglyphs_loop [] detected_chars normalized = (detected_chars, normalized)"
| "detect_homoglyphs_loop (c # cs) detected_chars normalized =
     (case map_of HOMOGLYPH_MAP (of_char c) of
        Some l \<Rightarrow> detect_homoglyphs_loop cs (detected_chars @ [c]) (normalized @ [l])
      | None \<Rightarrow> detect_homoglyphs_loop cs detected_chars (normalized @ [c]))"

definition detect_homoglyphs :: "string \<Rightarrow> bool \<times> string \<times> string" where
  "detect_homoglyphs domain =
     (let (detected_chars, normalized) = detect_homoglyphs_loop domain [] []
      in (length detected_chars > 0, detected_chars, normalized))"

text \<open>\<open>PhishingAnalyzer._levenshtein_distance\<close>: one row of the table from the previous one;
  \<open>left\<close> is the entry of the current row appended last.\<close>

fun levenshtein_row :: "char \<Rightarrow> string \<Rightarrow> nat list \<Rightarrow> nat \<Rightarrow> nat list" where
  "levenshtein_row c1 (c2 # s2) (p0 # p1 # prev_row) left =
     (let insertions = p1 + 1;
          deletions = left + 1;
          substitutions = p0 + (if c1 = c2 then 0 else 1);
          v = min insertions (min deletions substitutions)
      in v # levenshtein_row c1 s2 (p1 # prev_row) v)"
| "levenshtein_row c1 s2 prev_row left = []"

text \<open>\<open>list(range(len(s2) + 1))\<close>, counted from \<open>i\<close>.\<close>

fun range_row :: "nat \<Rightarrow> string \<Rightarrow> nat list" where
  "range_row i [] = [i]"
| "range_row i (c # cs) = i # range_row (Suc i) cs"

definition levenshtein_distance :: "string \<Rightarrow> string \<Rightarrow> nat" where
  "levenshtein_distance a b =
     (let s1 = (if length a < length b then b else a);
          s2 = (if length a < length b then a else b)
      in if length s2 = 0 then length s1
         else last (fold (\<lambda>(i, c1) prev_row. (i + 1) # levenshtein_row c1 s2 prev_row (i + 1))
                         (enumerate 0 s1) (range_row 0 s2)))"

text \<open>\<open>PhishingAnalyzer._detect_typosquatting\<close>: the loop over \<open>FAMOUS_DOMAINS\<close> returns
  \<open>None\<close> when it leaves early on an exact match, and the best match otherwise.\<close>

fun typosquatting_loop :: "string \<Rightarrow> string list \<Rightarrow> string \<Rightarrow> real \<Rightarrow> (string \<times> real) option" where
  "typosquatting_loop domain_base [] best_match best_similarity = Some (best_match, best_similarity)"
| "typosquatting_loop domain_base (famous # rest) best_match best_similarity =
     (if domain_base = famous then None
      else
        let distance = levenshtein_distance domain_base famous;
            max_len = max (length domain_base) (length famous);
            similarity = (if max_len > 0 then 1 - real distance / real max_len else 0)
        in if similarity > best_similarity
           then typosquatting_loop domain_base rest famous similarity
           else typosquatting_loop domain_base rest best_match best_similarity)"

definition detect_typosquatting :: "string \<Rightarrow> bool \<times> string \<times> real" where
  "detect_typosquatting domain =
     (let domain_parts = split_char CHR ''.'' domain;
          domain_base = (if length domain_parts \<ge> 2
                         then join ''.'' (drop (length domain_parts - 2) domain_parts)
                         else domain)
      in case typosquatting_loop domain_base FAMOUS_DOMAINS [] 0 of
           None \<Rightarrow> (False, [], 0)
         | Some (best_match, best_similarity) \<Rightarrow>
             let is_typosquat = (best_similarity \<ge> 80 / 100 \<and> best_match \<noteq> domain_base)
             in (is_typosquat, if is_typosquat then best_match else [],
                 if is_typosquat then best_similarity else 0))"

text \<open>\<open>PhishingAnalyzer._contains_brand_name\<close>\<close>

definition brand_names :: "string list" where
  "brand_names =
     [''google'', ''facebook'', ''amazon'', ''apple'', ''microsoft'',
      ''netflix'', ''paypal'', ''instagram'', ''twitter'', ''linkedin'',
      ''github'', ''yahoo'', ''dropbox'', ''chase'', ''wells'',
      ''citibank'', ''ebay'', ''walmart'', ''naver'', ''kakao'',
      ''samsung'', ''coinbase'', ''binance'', ''icloud'']"

definition contains_brand_name :: "string \<Rightarrow> bool" where
  "contains_brand_name domain =
     (let domain_lower = lower domain
      in list_ex (\<lambda>brand. contains domain_lower brand
                    \<and> domain_lower \<noteq> brand @ ''.com''
                    \<and> \<not> endswith domain_lower (''.'' @ brand @ ''.com'')) brand_names)"

text \<open>
  The entries of the feature dictionary that \<open>_calculate_url_score\<close> and
  \<open>_collect_url_indicators\<close> read. \<open>length_f\<close>, \<open>port_f\<close> and \<open>contains_brand_name_f\<close> are the
  keys \<open>length\<close>, \<open>port\<close> and \<open>contains_brand_name\<close>.
\<close>

record UrlFeatures =
  length_f :: nat
  entropy :: real
  subdomain_count :: nat
  is_ip_address :: bool
  is_https :: bool
  has_port :: bool
  port_f :: "nat option"
  special_char_ratio :: real
  digit_ratio :: real
  has_at_symbol :: bool
  has_double_hyphen :: bool
  encoded_char_count :: nat
  tld :: string
  is_suspicious_tld :: bool
  path_depth :: int
  has_homoglyphs :: bool
  homoglyph_chars :: string
  is_typosquatting :: bool
  similar_domain :: string
  domain_similarity :: real
  contains_brand_name_f :: bool

text \<open>\<open>PhishingAnalyzer._extract_url_features\<close>\<close>

definition extract_url_features :: "string \<Rightarrow> UrlFeatures outcome" where
  "extract_url_features u =
     (case urlparse u of
        Raises e \<Rightarrow> Raises e
      | Returns parsed \<Rightarrow>
          (case port parsed of
             Raises e \<Rightarrow> Raises e
           | Returns parsed_port \<Rightarrow>
               let domain = (case hostname parsed of None \<Rightarrow> [] | Some h \<Rightarrow> h);
                   domain_parts = split_char CHR ''.'' domain;
                   special_chars = length (filter (\<lambda>c. \<not> isalnum c \<and> c \<notin> set '':/.-_'') u);
                   digit_count = length (filter isdigit domain);
                   the_tld = ''.'' @ last domain_parts;
                   homoglyph_result = detect_homoglyphs domain;
                   typosquat_result = detect_typosquatting domain
               in Returns
                 \<lparr>length_f = length u,
                  entropy = calculate_entropy u,
                  subdomain_count = length domain_parts - 2,
                  is_ip_address = ip_pattern_match domain,
                  is_https = (scheme parsed = ''https''),
                  has_port = (parsed_port \<noteq> None \<and> parsed_port \<noteq> Some 80 \<and> parsed_port \<noteq> Some 443),
                  port_f = parsed_port,
                  special_char_ratio = real special_chars / real (max (length u) 1),
                  digit_ratio = real digit_count / real (max (length domain) 1),
                  has_at_symbol = (CHR ''@'' \<in> set u),
                  has_double_hyphen = contains domain ''--'',
                  encoded_char_count = encoded_count u,
                  tld = the_tld,
                  is_suspicious_tld = (lower the_tld \<in> SUSPICIOUS_TLDS),
                  path_depth = (if path parsed \<noteq> [] then int (count_list (path parsed) CHR ''/'') - 1 else 0),
                  has_homoglyphs = fst homoglyph_result,
                  homoglyph_chars = fst (snd homoglyph_result),
                  is_typosquatting = fst typosquat_result,
                  similar_domain = fst (snd typosquat_result),
                  domain_similarity = snd (snd typosquat_result),
                  contains_brand_name_f = contains_brand_name domain\<rparr>))"

text \<open>\<open>PhishingAnalyzer._calculate_url_score\<close>\<close>

definition calculate_url_score :: "UrlFeatures \<Rightarrow> real" where
  "calculate_url_score features =
     (let weights =
          (if is_ip_address features then [(''ip_address'', 30 / 100)] else [])
        @ (if \<not> is_https features then [(''no_https'', 10 / 100)] else [])
        @ (if is_suspicious_tld features then [(''suspicious_tld'', 15 / 100)] else [])
        @ (if subdomain_count features \<ge> 3 then [(''many_subdomains'', 15 / 100)]
           else if subdomain_count features \<ge> 2 then [(''some_subdomains'', 8 / 100)] else [])
        @ (if length_f features > 100 then [(''very_long_url'', 12 / 100)]
           else if length_f features > 75 then [(''long_url'', 8 / 100)] else [])
        @ (if entropy features > 5 then [(''very_high_entropy'', 12 / 100)]
           else if entropy features > 45 / 10 then [(''high_entropy'', 8 / 100)] else [])
        @ (if has_at_symbol features then [(''at_symbol'', 20 / 100)] else [])
        @ (if has_port features then [(''unusual_port'', 15 / 100)] else [])
        @ (if has_homoglyphs features then [(''homoglyphs'', 30 / 100)] else [])
        @ (if is_typosquatting features
           then [(''typosquatting'', 25 / 100 + domain_similarity features * (10 / 100))] else [])
        @ (if contains_brand_name_f features then [(''brand_in_domain'', 15 / 100)] else [])
        @ (if digit_ratio features > 3 / 10 then [(''high_digit_ratio'', 8 / 100)] else [])
        @ (if special_char_ratio features > 2 / 10 then [(''high_special_char_ratio'', 8 / 100)] else [])
        @ (if encoded_char_count features > 3 then [(''many_encoded_chars'', 10 / 100)] else [])
        @ (if has_double_hyphen features then [(''double_hyphen'', 5 / 100)] else [])
        @ (if path_depth features > 5 then [(''deep_path'', 5 / 100)] else []);
          score = sum_list (map snd weights)
      in min 1 (max 0 score))"

text \<open>\<open>PhishingAnalyzer._score_to_level\<close>\<close>

definition score_to_level :: "real \<Rightarrow> ThreatLevel" where
  "score_to_level score =
     (if score \<ge> 9 / 10 then CRITICAL
      else if score \<ge> 75 / 100 then HIGH
      else if score \<ge> 5 / 10 then MEDIUM
      else if score \<ge> 3 / 10 then LOW
      else SAFE)"

text \<open>\<open>PhishingAnalyzer._collect_url_indicators\<close>\<close>

definition collect_url_indicators :: "UrlFeatures \<Rightarrow> indicator list" where
  "collect_url_indicators features =
       (if is_ip_address features then [IndIpAddress] else [])
     @ (if \<not> is_https features then [IndNoHttps] else [])
     @ (if is_suspicious_tld features then [IndSuspiciousTld (tld features)] else [])
     @ (if subdomain_count features \<ge> 3 then [IndManySubdomains (subdomain_count features)] else [])
     @ (if has_at_symbol features then [IndAtSymbol] else [])
     @ (if has_homoglyphs features then [IndHomoglyphs (homoglyph_chars features)] else [])
     @ (if is_typosquatting features then [IndTyposquatting (similar_domain features)] else [])
     @ (if contains_brand_name_f features then [IndBrandName] else [])
     @ (if has_port features then [IndUnusualPort (port_f features)] else [])
     @ (if length_f features > 75 then [IndLongUrl (length_f features)] else [])
     @ (if entropy features > 45 / 10 then [IndHighEntropy (entropy features)] else [])"

text \<open>\<open>PhishingAnalyzer.analyze_url\<close>, with \<open>threshold\<close> the value of
  \<open>config.threats.phishing_threshold\<close>.\<close>

definition phishing_analyze_url :: "real \<Rightarrow> string \<Rightarrow> ThreatDetail option outcome" where
  "phishing_analyze_url threshold u =
     (case extract_url_features u of
        Raises e \<Rightarrow> Raises e
      | Returns features \<Rightarrow>
          let score = calculate_url_score features
          in if score < threshold then Returns None
             else Returns (Some
               \<lparr>threat_type = PHISHING,
                threat_level = score_to_level score,
                confidence = score,
                description = UrlHeuristicDescription score,
                indicators = collect_url_indicators features\<rparr>))"

text \<open>The URL of the end-to-end scenario.\<close>

definition example_url :: string where
  "example_url = ''http://192.168.1.1/login''"

text \<open>An upper bound, in whole bits, of \<open>- log 2 p\<close> for a probability of at least 1/32.\<close>

definition entropy_bits :: "real \<Rightarrow> real" where
  "entropy_bits p = (if p \<ge> 1 / 8 then 3 else if p \<ge> 1 / 16 then 4 else 5)"

section \<open>Orchestration (agent/core/agent.py)\<close>

text \<open>
  What awaiting an analyzer gives: \<open>analyzer_value\<close> is the returned object (\<open>None\<close>, one
  \<open>ThreatDetail\<close> or a list of them, the three shapes \<open>analyze_page\<close> tells apart). The
  analyzers are the agent's collaborators: a call is given by its outcome. The module
  agent/analyzers/malware_analyzer.py is not among the sources.
\<close>

datatype analyzer_value = NoFinding | Finding ThreatDetail | Findings "ThreatDetail list"

fun of_optional :: "ThreatDetail option outcome \<Rightarrow> analyzer_value outcome" where
  "of_optional (Raises e) = Raises e"
| "of_optional (Returns None) = Returns NoFinding"
| "of_optional (Returns (Some d)) = Returns (Finding d)"

text \<open>
  \<open>self._llm_inference\<close>: for each of the three \<open>_analyze_*_with_llm\<close> methods, the outcome of
  the body of its \<open>try\<close> block (feature extraction, \<open>generate\<close>, \<open>_parse_llm_threat_response\<close>).
\<close>

record LLMInference =
  llm_url :: "string \<Rightarrow> ThreatDetail option outcome"
  llm_script :: "string \<Rightarrow> ThreatDetail option outcome"
  llm_page :: "string \<Rightarrow> string \<Rightarrow> ThreatDetail option outcome"

record Analyzers =
  run_phishing_url :: "string \<Rightarrow> ThreatDetail option outcome"
  run_phishing_content :: "string \<Rightarrow> string \<Rightarrow> ThreatDetail option outcome"
  run_malware_script :: "string \<Rightarrow> ThreatDetail option outcome"
  run_malware_html :: "string \<Rightarrow> analyzer_value outcome"
  run_privacy_page :: "string \<Rightarrow> string \<Rightarrow> ThreatDetail option outcome"
  llm_inference :: "LLMInference option"

text \<open>\<open>hashlib\<close>: the hexadecimal digests are parameters.\<close>

record Hashes =
  md5_hexdigest :: "string \<Rightarrow> string"
  sha256_hexdigest :: "string \<Rightarrow> string"

text \<open>\<open>SecurityAgent._make_cache_key\<close>\<close>

definition make_cache_key :: "Hashes \<Rightarrow> string \<Rightarrow> string \<Rightarrow> string" where
  "make_cache_key H prefix v = prefix @ '':'' @ md5_hexdigest H v"

text \<open>\<open>except Exception: return None\<close> around the body of an \<open>_analyze_*_with_llm\<close> method.\<close>

fun with_llm :: "ThreatDetail option outcome \<Rightarrow> ThreatDetail option" where
  "with_llm (Raises e) = None"
| "with_llm (Returns d) = d"

text \<open>\<open>if detail is not None: report.add_detail(detail)\<close>\<close>

fun add_if_not_None :: "ThreatReport \<Rightarrow> ThreatDetail option \<Rightarrow> ThreatReport" where
  "add_if_not_None rep None = rep"
| "add_if_not_None rep (Some d) = add_detail rep d"

text \<open>A new object in the store.\<close>

definition alloc :: "ThreatReport \<Rightarrow> AgentState \<Rightarrow> ref \<times> AgentState" where
  "alloc rep s = (next_ref s, s\<lparr>heap := (heap s)(next_ref s := rep), next_ref := Suc (next_ref s)\<rparr>)"

text \<open>
  The end of the three analysis methods: recommendations, \<open>analysis_time_ms\<close>,
  \<open>_set_cached\<close>, \<open>return report\<close>. The report is built as a value and enters the store
  here: no other reference to it exists before.
\<close>

definition finish_report ::
    "LLMConfig \<Rightarrow> real \<Rightarrow> real \<Rightarrow> string \<Rightarrow> ThreatReport \<Rightarrow> AgentState \<Rightarrow> (error + ref) \<times> AgentState" where
  "finish_report cfg now elapsed_ms cache_key rep s =
     (let rep' = rep\<lparr>recommendations := generate_recommendations rep,
                      analysis_time_ms := elapsed_ms\<rparr>;
          (r, s1) = alloc rep' s
      in case set_cached cfg now cache_key r s1 of
           Inl e \<Rightarrow> (Inl e, s1)
         | Inr s2 \<Rightarrow> (Inr r, s2))"

text \<open>
  \<open>SecurityAgent.analyze_url\<close>. \<open>now\<close> is the wall clock (\<open>time.time()\<close>) and \<open>elapsed_ms\<close> the
  measured duration; the result is the returned reference or the exception raised,
  together with the agent's state afterwards.
\<close>

definition analyze_url ::
    "LLMConfig \<Rightarrow> Hashes \<Rightarrow> Analyzers \<Rightarrow> real \<Rightarrow> real \<Rightarrow> string \<Rightarrow> bool \<Rightarrow> AgentState
       \<Rightarrow> (error + ref) \<times> AgentState" where
  "analyze_url cfg H A now elapsed_ms u use_llm s =
     (if \<not> initialized s then (Inl NotInitialized, s)
      else
        let cache_key = make_cache_key H ''url'' u
        in case get_cached cfg now cache_key s of
             (Some r, s1) \<Rightarrow> (Inr r, s1)
           | (None, s1) \<Rightarrow>
               (case run_phishing_url A u of
                  Raises e \<Rightarrow> (Inl (AnalyzerError e), s1)
                | Returns phishing_detail \<Rightarrow>
                    let rep1 = add_if_not_None (new_report u now) phishing_detail;
                        rep2 = (case llm_inference A of
                                  Some llm \<Rightarrow>
                                    if use_llm then add_if_not_None rep1 (with_llm (llm_url llm u))
                                    else rep1
                                | None \<Rightarrow> rep1)
                    in finish_report cfg now elapsed_ms cache_key rep2 s1))"

text \<open>\<open>SecurityAgent.analyze_script\<close>\<close>

definition analyze_script ::
    "LLMConfig \<Rightarrow> Hashes \<Rightarrow> Analyzers \<Rightarrow> real \<Rightarrow> real \<Rightarrow> string \<Rightarrow> string \<Rightarrow> AgentState
       \<Rightarrow> (error + ref) \<times> AgentState" where
  "analyze_script cfg H A now elapsed_ms code source_url s =
     (if \<not> initialized s then (Inl NotInitialized, s)
      else
        let code_hash = take 16 (sha256_hexdigest H code);
            cache_key = make_cache_key H ''script'' code_hash
        in case get_cached cfg now cache_key s of
             (Some r, s1) \<Rightarrow> (Inr r, s1)
           | (None, s1) \<Rightarrow>
               (case run_malware_script A code of
                  Raises e \<Rightarrow> (Inl (AnalyzerError e), s1)
                | Returns malware_detail \<Rightarrow>
                    let rep0 = new_report (if source_url \<noteq> [] then source_url
                                           else ''script:'' @ code_hash) now;
                        rep1 = add_if_not_None rep0 malware_detail;
                        rep2 = (case llm_inference A of
                                  Some llm \<Rightarrow>
                                    if length code \<le> 10000
                                    then add_if_not_None rep1 (with_llm (llm_script llm code))
                                    else rep1
                                | None \<Rightarrow> rep1)
                    in finish_report cfg now elapsed_ms cache_key rep2 s1))"

text \<open>
  The loop over the results of \<open>asyncio.gather(*tasks, return_exceptions=True)\<close>: an
  exception is logged and skipped.
\<close>

fun collect_result :: "ThreatReport \<Rightarrow> analyzer_value outcome \<Rightarrow> ThreatReport" where
  "collect_result rep (Raises e) = rep"
| "collect_result rep (Returns NoFinding) = rep"
| "collect_result rep (Returns (Findings ds)) = foldl add_detail rep ds"
| "collect_result rep (Returns (Finding d)) = add_detail rep d"

text \<open>\<open>SecurityAgent.analyze_page\<close>\<close>

definition analyze_page ::
    "LLMConfig \<Rightarrow> Hashes \<Rightarrow> Analyzers \<Rightarrow> real \<Rightarrow> real \<Rightarrow> string \<Rightarrow> string \<Rightarrow> bool \<Rightarrow> AgentState
       \<Rightarrow> (error + ref) \<times> AgentState" where
  "analyze_page cfg H A now elapsed_ms u html_content use_llm s =
     (if \<not> initialized s then (Inl NotInitialized, s)
      else
        let content_hash = take 16 (sha256_hexdigest H (u @ '':'' @ take 1000 html_content));
            cache_key = make_cache_key H ''page'' content_hash
        in case get_cached cfg now cache_key s of
             (Some r, s1) \<Rightarrow> (Inr r, s1)
           | (None, s1) \<Rightarrow>
               let results =
                     [of_optional (run_phishing_url A u),
                      of_optional (run_phishing_content A u html_content),
                      run_malware_html A html_content,
                      of_optional (run_privacy_page A u html_content)];
                   rep1 = foldl collect_result (new_report u now) results;
                   rep2 = (case llm_inference A of
                             Some llm \<Rightarrow>
                               if use_llm
                               then add_if_not_None rep1 (with_llm (llm_page llm u html_content))
                               else rep1
                           | None \<Rightarrow> rep1)
               in finish_report cfg now elapsed_ms cache_key rep2 s1)"

section \<open>Concrete agents for the scenarios\<close>

text \<open>An agent after \<open>initialize()\<close>: an empty cache and no report yet.\<close>

definition fresh_agent :: AgentState where
  "fresh_agent = \<lparr>heap = (\<lambda>_. new_report [] 0), next_ref = 0, cache = [], initialized = True\<rparr>"

text \<open>An agent that holds one fresh report, at address 0, and an empty cache.\<close>

definition example_agent :: AgentState where
  "example_agent =
     \<lparr>heap = (\<lambda>_. new_report ''http://a.example/'' 0), next_ref = 1, cache = [],
      initialized = True\<rparr>"

text \<open>Digests for the concrete scenarios; what the theorems state does not depend on them.\<close>

definition example_hashes :: Hashes where
  "example_hashes = \<lparr>md5_hexdigest = (\<lambda>v. v), sha256_hexdigest = (\<lambda>v. v)\<rparr>"

text \<open>The default of \<open>ThreatConfig.phishing_threshold\<close> (agent/core/config.py).\<close>

definition default_phishing_threshold :: real where
  "default_phishing_threshold = 7 / 10"

text \<open>
  The phishing analyzer of the sources with the given threshold; the other analyzers
  find nothing.
\<close>

definition phishing_only :: "real \<Rightarrow> LLMInference option \<Rightarrow> Analyzers" where
  "phishing_only threshold llm =
     \<lparr>run_phishing_url = phishing_analyze_url threshold,
      run_phishing_content = (\<lambda>u html. Returns None),
      run_malware_script = (\<lambda>code. Returns None),
      run_malware_html = (\<lambda>html. Returns NoFinding),
      run_privacy_page = (\<lambda>u html. Returns None),
      llm_inference = llm\<rparr>"

text \<open>A language model that judges every target a HIGH phishing threat.\<close>

definition high_detail :: ThreatDetail where
  "high_detail =
     \<lparr>threat_type = PHISHING, threat_level = HIGH, confidence = 9 / 10,
      description = OtherDescription ''llm'', indicators = []\<rparr>"

definition llm_high :: LLMInference where
  "llm_high =
     \<lparr>llm_url = (\<lambda>u. Returns (Some high_detail)),
      llm_script = (\<lambda>code. Returns (Some high_detail)),
      llm_page = (\<lambda>u html. Returns (Some high_detail))\<rparr>"

text \<open>A URL whose port is out of range: \<open>urlparse(url).port\<close> raises \<open>ValueError\<close>.\<close>

definition bad_port_url :: string where
  "bad_port_url = ''http://example.com:99999/''"

subsection \<open>The gathered results of a page analysis\<close>

text \<open>The findings that one gathered result contributes to the report.\<close>

fun findings_of :: "analyzer_value outcome \<Rightarrow> ThreatDetail list" where
  "findings_of (Raises e) = []"
| "findings_of (Returns NoFinding) = []"
| "findings_of (Returns (Findings ds)) = ds"
| "findings_of (Returns (Finding d)) = [d]"

text \<open>The four results that \<open>analyze_page\<close> gathers, in the order of its tasks.\<close>

definition page_results :: "Analyzers \<Rightarrow> string \<Rightarrow> string \<Rightarrow> analyzer_value outcome list" where
  "page_results A u html_content =
     [of_optional (run_phishing_url A u),
      of_optional (run_phishing_content A u html_content),
      run_malware_html A html_content,
      of_optional (run_privacy_page A u html_content)]"

section \<open>RPC layer (agent/api/grpc_server.py)\<close>

subsection \<open>Reports as dictionaries\<close>

text \<open>\<open>_ThreatLevelProto.from_internal\<close> and \<open>_ThreatTypeProto.from_internal\<close>\<close>

fun level_from_internal :: "ThreatLevel \<Rightarrow> nat" where
  "level_from_internal SAFE = 0"
| "level_from_internal LOW = 1"
| "level_from_internal MEDIUM = 2"
| "level_from_internal HIGH = 3"
| "level_from_internal CRITICAL = 4"

fun type_from_internal :: "ThreatType \<Rightarrow> nat" where
  "type_from_internal PHISHING = 0"
| "type_from_internal MALWARE = 1"
| "type_from_internal XSS = 2"
| "type_from_internal PRIVACY = 3"
| "type_from_internal CERT = 4"

text \<open>The dictionary of \<open>_detail_to_dict\<close>, by its keys (without \<open>metadata\<close>, as in \<open>ThreatDetail\<close>).\<close>

record DetailDict =
  d_threat_type :: nat
  d_threat_level :: nat
  d_confidence :: real
  d_description :: description
  d_indicators :: "indicator list"

definition detail_to_dict :: "ThreatDetail \<Rightarrow> DetailDict" where
  "detail_to_dict d =
     \<lparr>d_threat_type = type_from_internal (threat_type d),
      d_threat_level = level_from_internal (threat_level d),
      d_confidence = confidence d,
      d_description = description d,
      d_indicators = indicators d\<rparr>"

text \<open>
  The dictionary of \<open>_report_to_dict\<close>, by its keys, with the three keys that \<open>AnalyzePage\<close>
  adds (absent, \<open>None\<close>, in the other responses).
\<close>

record ReportDict =
  r_url :: string
  r_overall_level :: nat
  r_overall_score :: real
  r_details :: "DetailDict list"
  r_recommendations :: "recommendation list"
  r_analysis_time_ms :: real
  r_cached :: bool
  r_timestamp :: real
  r_page_url :: "string option"
  r_content_size :: "nat option"
  r_security_score :: "int option"

definition report_to_dict :: "ThreatReport \<Rightarrow> ReportDict" where
  "report_to_dict rep =
     \<lparr>r_url = url rep,
      r_overall_level = level_from_internal (overall_level rep),
      r_overall_score = overall_score rep,
      r_details = map detail_to_dict (details rep),
      r_recommendations = recommendations rep,
      r_analysis_time_ms = analysis_time_ms rep,
      r_cached = cached rep,
      r_timestamp = timestamp rep,
      r_page_url = None,
      r_content_size = None,
      r_security_score = None\<rparr>"

subsection \<open>asyncio.Queue\<close>

text \<open>
  The queue of the standard library, as far as the server uses it: a FIFO of items with a
  capacity; \<open>maxsize <= 0\<close> means no bound. \<open>put_nowait\<close> raises \<open>QueueFull\<close> on a full queue
  and \<open>get_nowait\<close> raises \<open>QueueEmpty\<close> on an empty one.
\<close>

record 'a Queue =
  items :: "'a list"
  maxsize :: int

datatype queue_error = QueueFull | QueueEmpty

definition new_queue :: "int \<Rightarrow> 'a Queue" where
  "new_queue n = \<lparr>items = [], maxsize = n\<rparr>"

definition full :: "'a Queue \<Rightarrow> bool" where
  "full q = (if maxsize q \<le> 0 then False else int (length (items q)) \<ge> maxsize q)"

definition put_nowait :: "'a Queue \<Rightarrow> 'a \<Rightarrow> queue_error + 'a Queue" where
  "put_nowait q x = (if full q then Inl QueueFull else Inr (q\<lparr>items := items q @ [x]\<rparr>))"

definition get_nowait :: "'a Queue \<Rightarrow> queue_error + ('a \<times> 'a Queue)" where
  "get_nowait q =
     (case items q of
        [] \<Rightarrow> Inl QueueEmpty
      | x # xs \<Rightarrow> Inr (x, q\<lparr>items := xs\<rparr>))"

subsection \<open>The servicer\<close>

text \<open>\<open>SecurityServicer\<close>: \<open>self._threat_queues\<close>, \<open>self._reports\<close> and \<open>self._max_reports\<close>.\<close>

record Servicer =
  threat_queues :: "ReportDict Queue list"
  reports :: "ReportDict list"
  max_reports :: nat

definition new_servicer :: Servicer where
  "new_servicer = \<lparr>threat_queues = [], reports = [], max_reports = 1000\<rparr>"

text \<open>\<open>SecurityServicer._store_report\<close>\<close>

text \<open>The slice \<open>xs[-n:]\<close> for \<open>n >= 0\<close>: the last \<open>n\<close> items, and the whole list for \<open>n = 0\<close>.\<close>

definition last_items :: "nat \<Rightarrow> 'a list \<Rightarrow> 'a list" where
  "last_items n xs = (if n = 0 then xs else drop (length xs - n) xs)"

definition store_report :: "ReportDict \<Rightarrow> Servicer \<Rightarrow> Servicer" where
  "store_report rd sv =
     (let rs = reports sv @ [rd]
      in if length rs > max_reports sv
         then sv\<lparr>reports := last_items (max_reports sv) rs\<rparr>
         else sv\<lparr>reports := rs\<rparr>)"

text \<open>
  The body of the loop of \<open>_broadcast_threat\<close> for one queue. The outer handler catches
  \<open>QueueFull\<close> only, the inner one \<open>QueueEmpty\<close> and \<open>QueueFull\<close>; an exception that no
  handler catches leaves the loop.
\<close>

definition offer :: "'a \<Rightarrow> 'a Queue \<Rightarrow> queue_error + 'a Queue" where
  "offer x q =
     (case put_nowait q x of
        Inr q1 \<Rightarrow> Inr q1
      | Inl QueueFull \<Rightarrow>
          (case get_nowait q of
             Inl e \<Rightarrow> Inr q
           | Inr (oldest, q1) \<Rightarrow>
               (case put_nowait q1 x of
                  Inr q2 \<Rightarrow> Inr q2
                | Inl e \<Rightarrow> Inr q1))
      | Inl QueueEmpty \<Rightarrow> Inl QueueEmpty)"

text \<open>The loop over the queues: the exception that left it, if any, and the queues afterwards.\<close>

fun offer_all :: "'a \<Rightarrow> 'a Queue list \<Rightarrow> queue_error option \<times> 'a Queue list" where
  "offer_all x [] = (None, [])"
| "offer_all x (q # qs) =
     (case offer x q of
        Inl e \<Rightarrow> (Some e, q # qs)
      | Inr q' \<Rightarrow> (case offer_all x qs of (err, qs') \<Rightarrow> (err, q' # qs')))"

text \<open>\<open>SecurityServicer._broadcast_threat\<close>: the exception raised, if any, and the servicer.\<close>

definition broadcast_threat :: "ReportDict \<Rightarrow> Servicer \<Rightarrow> queue_error option \<times> Servicer" where
  "broadcast_threat rd sv =
     (if r_overall_level rd = 0 then (None, sv)
      else (case offer_all rd (threat_queues sv) of
              (err, qs) \<Rightarrow> (err, sv\<lparr>threat_queues := qs\<rparr>)))"

subsection \<open>AnalyzePage\<close>

text \<open>Python's \<open>int(x)\<close> of a float: truncation towards zero.\<close>

definition py_int :: "real \<Rightarrow> int" where
  "py_int x = (if x \<ge> 0 then \<lfloor>x\<rfloor> else \<lceil>x\<rceil>)"

text \<open>The value of the key \<open>error\<close> of an error response: a fixed text, or \<open>str(e)\<close>.\<close>

datatype error_message = UrlAndHtmlRequired | AgentErrorText error | QueueErrorText queue_error

datatype response = ErrorResponse error_message | ReportResponse ReportDict

fun response_report :: "response \<Rightarrow> ReportDict option" where
  "response_report (ErrorResponse m) = None"
| "response_report (ReportResponse rd) = Some rd"

text \<open>
  \<open>SecurityServicer.AnalyzePage\<close>: the response, and the servicer and the agent afterwards.
  Every exception inside the \<open>try\<close> block becomes an error response.
\<close>

definition AnalyzePage ::
    "LLMConfig \<Rightarrow> Hashes \<Rightarrow> Analyzers \<Rightarrow> real \<Rightarrow> real \<Rightarrow> string \<Rightarrow> string \<Rightarrow> bool
       \<Rightarrow> Servicer \<times> AgentState \<Rightarrow> response \<times> Servicer \<times> AgentState" where
  "AnalyzePage cfg H A now elapsed_ms u html_content use_llm st =
     (let (sv, s) = st
      in if u = [] \<or> html_content = []
         then (ErrorResponse UrlAndHtmlRequired, sv, s)
         else
           (case analyze_page cfg H A now elapsed_ms u html_content use_llm s of
              (Inl e, s1) \<Rightarrow> (ErrorResponse (AgentErrorText e), sv, s1)
            | (Inr r, s1) \<Rightarrow>
                let rep = heap s1 r;
                    security_score = max 0 (100 - py_int (overall_score rep * 100));
                    result = (report_to_dict rep)
                      \<lparr>r_page_url := Some u,
                       r_content_size := Some (length html_content),
                       r_security_score := Some security_score\<rparr>;
                    sv1 = store_report result sv
                in (case broadcast_threat result sv1 of
                      (Some e, sv2) \<Rightarrow> (ErrorResponse (QueueErrorText e), sv2, s1)
                    | (None, sv2) \<Rightarrow> (ReportResponse result, sv2, s1))))"

subsection \<open>StreamThreats\<close>

text \<open>
  One running \<open>StreamThreats\<close> generator: its \<open>min_level\<close> and, in order, the reports it has
  yielded. Its queue is the one it appended to \<open>_threat_queues\<close>: the generators and the
  queues of the servicer stand in the same order. The end of a stream, which removes its
  queue, is left out: the system is followed while its streams run.
\<close>

record Subscriber =
  min_level :: int
  delivered :: "ReportDict list"

record System =
  servicer :: Servicer
  subscribers :: "Subscriber list"

definition new_system :: System where
  "new_system = \<lparr>servicer = new_servicer, subscribers = []\<rparr>"

text \<open>
  What happens in the system: a client opens a stream (\<open>asyncio.Queue(maxsize=100)\<close> is
  registered), a report is broadcast, or the generator of a stream runs one round of its
  loop (\<open>await queue.get()\<close>, then the filter and the \<open>yield\<close>); on an empty queue the
  generator waits and nothing changes.
\<close>

datatype event = Subscribe int | Broadcast ReportDict | Consume nat

fun system_step :: "System \<Rightarrow> event \<Rightarrow> System" where
  "system_step sys (Subscribe m) =
     sys\<lparr>servicer := (servicer sys)\<lparr>threat_queues := threat_queues (servicer sys) @ [new_queue 100]\<rparr>,
         subscribers := subscribers sys @ [\<lparr>min_level = m, delivered = []\<rparr>]\<rparr>"
| "system_step sys (Broadcast rd) = sys\<lparr>servicer := snd (broadcast_threat rd (servicer sys))\<rparr>"
| "system_step sys (Consume i) =
     (if i < length (threat_queues (servicer sys)) \<and> i < length (subscribers sys)
      then
        (case get_nowait (threat_queues (servicer sys) ! i) of
           Inl e \<Rightarrow> sys
         | Inr (rd, q1) \<Rightarrow>
             let sub = subscribers sys ! i;
                 sv = (servicer sys)\<lparr>threat_queues := (threat_queues (servicer sys))[i := q1]\<rparr>
             in if int (r_overall_level rd) \<ge> min_level sub
                then sys\<lparr>servicer := sv,
                         subscribers := (subscribers sys)[i := sub\<lparr>delivered := delivered sub @ [rd]\<rparr>]\<rparr>
                else sys\<lparr>servicer := sv\<rparr>)
      else sys)"

definition run_system :: "System \<Rightarrow> event list \<Rightarrow> System" where
  "run_system sys es = foldl system_step sys es"

text \<open>The reports of a list of events that are not SAFE, in order.\<close>

fun broadcasts :: "event list \<Rightarrow> ReportDict list" where
  "broadcasts [] = []"
| "broadcasts (Broadcast rd # es) = (if r_overall_level rd = 0 then broadcasts es else rd # broadcasts es)"
| "broadcasts (e # es) = broadcasts es"

text \<open>No report that is not SAFE is broadcast while the queue of stream \<open>i\<close> is full.\<close>

fun no_overflow :: "nat \<Rightarrow> System \<Rightarrow> event list \<Rightarrow> bool" where
  "no_overflow i sys [] = True"
| "no_overflow i sys (Broadcast rd # es) =
     ((r_overall_level rd = 0 \<or> \<not> full (threat_queues (servicer sys) ! i))
      \<and> no_overflow i (system_step sys (Broadcast rd)) es)"
| "no_overflow i sys (e # es) = no_overflow i (system_step sys e) es"

subsection \<open>Concrete reports and analyzers\<close>

text \<open>A report of level HIGH, numbered by its timestamp, and \<open>n\<close> broadcasts of such reports.\<close>

definition numbered_report :: "nat \<Rightarrow> ReportDict" where
  "numbered_report k =
     \<lparr>r_url = ''http://a.example/'', r_overall_level = 3, r_overall_score = 3 / 4,
      r_details = [], r_recommendations = [], r_analysis_time_ms = 0, r_cached = False,
      r_timestamp = real k, r_page_url = None, r_content_size = None,
      r_security_score = None\<rparr>"

definition burst :: "nat \<Rightarrow> event list" where
  "burst n = map (\<lambda>k. Broadcast (numbered_report k)) [0..<n]"

text \<open>
  Analyzers of which two report: a LOW finding of confidence 1 and a MEDIUM finding of
  confidence 0.5, which roll up to the score (0.25 + 0.25) / 1.5 = 1/3.
\<close>

definition low_detail :: ThreatDetail where
  "low_detail =
     \<lparr>threat_type = PHISHING, threat_level = LOW, confidence = 1,
      description = OtherDescription ''low'', indicators = []\<rparr>"

definition medium_detail :: ThreatDetail where
  "medium_detail =
     \<lparr>threat_type = PRIVACY, threat_level = MEDIUM, confidence = 1 / 2,
      description = OtherDescription ''medium'', indicators = []\<rparr>"

definition low_and_medium :: Analyzers where
  "low_and_medium =
     \<lparr>run_phishing_url = (\<lambda>u. Returns (Some low_detail)),
      run_phishing_content = (\<lambda>u html. Returns None),
      run_malware_script = (\<lambda>code. Returns None),
      run_malware_html = (\<lambda>html. Returns NoFinding),
      run_privacy_page = (\<lambda>u html. Returns (Some medium_detail)),
      llm_inference = None\<rparr>"

section \<open>Realtime monitor (agent/core/realtime_monitor.py)\<close>

subsection \<open>Alerts and page states\<close>

datatype AlertSeverity = INFO | WARNING | DANGER | CRITICAL_severity

datatype AlertType =
    SCRIPT_INJECTION | IFRAME_INSERTION | FORM_HIJACK | SUSPICIOUS_REQUEST
  | CRYPTO_MINING | DATA_EXFILTRATION | DOM_CLOBBERING | EVAL_EXECUTION

text \<open>The messages of the alerts are formatted texts; a message is given by its template
  and the values that fill it.\<close>

datatype alert_message =
    ScriptInsertedMessage string
  | IframeInsertedMessage string
  | DomPatternMessage string
  | FormActionMessage string string
  | KnownThreatMessage string
  | ExfiltrationMessage string
  | MiningMessage string

text \<open>
  \<open>@dataclass SecurityAlert\<close>. The field \<open>timestamp\<close>, the wall clock at the creation of the
  alert, is left out: no method followed here reads it. The dictionary \<open>details\<close> is the list
  of its keys and values.
\<close>

record SecurityAlert =
  alert_type :: AlertType
  severity :: AlertSeverity
  page_id :: string
  message :: alert_message
  alert_details :: "(string \<times> string option) list"

text \<open>\<open>@dataclass PageMonitorState\<close> (without \<open>start_time\<close>, likewise).\<close>

record PageMonitorState =
  state_page_id :: string
  is_active :: bool
  alerts :: "SecurityAlert list"
  anomaly_score :: real
  request_count :: nat
  blocked_count :: nat
  mutation_count :: nat

definition new_page_state :: "string \<Rightarrow> PageMonitorState" where
  "new_page_state pid =
     \<lparr>state_page_id = pid, is_active = True, alerts = [], anomaly_score = 0,
      request_count = 0, blocked_count = 0, mutation_count = 0\<rparr>"

subsection \<open>The monitor\<close>

text \<open>
  \<open>RealtimeMonitor\<close>: \<open>_pages\<close>, \<open>_alert_callback\<close>, \<open>_max_alerts\<close> and \<open>_known_threats\<close>. The
  callback is the client's: a call of it is given by its outcome, and the calls made are
  what the methods below return as their trace.
\<close>

record Monitor =
  pages :: "string \<rightharpoonup> PageMonitorState"
  alert_callback :: "(SecurityAlert \<Rightarrow> unit outcome) option"
  max_alerts :: int
  known_threats :: "string set"

text \<open>\<open>RealtimeMonitor.__init__\<close>; the default of \<open>max_alerts_per_page\<close> is 100.\<close>

definition new_monitor :: "(SecurityAlert \<Rightarrow> unit outcome) option \<Rightarrow> int \<Rightarrow> Monitor" where
  "new_monitor callback max_alerts_per_page =
     \<lparr>pages = Map.empty, alert_callback = callback, max_alerts = max_alerts_per_page,
      known_threats = {}\<rparr>"

text \<open>
  The three lists of compiled patterns. For a text, each gives the pattern text of the
  first pattern of the list that \<open>pattern.search\<close> finds in it, if any: the regular
  expression engine is a parameter.
\<close>

record Patterns =
  mining_search :: "string \<Rightarrow> string option"
  suspicious_script_search :: "string \<Rightarrow> string option"
  exfiltration_search :: "string \<Rightarrow> string option"

text \<open>\<open>start_monitoring\<close>, \<open>stop_monitoring\<close>, \<open>add_known_threat\<close>, \<open>remove_known_threat\<close>,
  \<open>cleanup\<close> and \<open>cleanup_all\<close>\<close>

definition start_monitoring :: "string \<Rightarrow> Monitor \<Rightarrow> Monitor" where
  "start_monitoring pid m =
     (case pages m pid of
        Some st \<Rightarrow> m\<lparr>pages := (pages m)(pid \<mapsto> st\<lparr>is_active := True\<rparr>)\<rparr>
      | None \<Rightarrow> m\<lparr>pages := (pages m)(pid \<mapsto> new_page_state pid)\<rparr>)"

definition stop_monitoring :: "string \<Rightarrow> Monitor \<Rightarrow> PageMonitorState option \<times> Monitor" where
  "stop_monitoring pid m =
     (case pages m pid of
        Some st \<Rightarrow> (Some (st\<lparr>is_active := False\<rparr>),
                    m\<lparr>pages := (pages m)(pid \<mapsto> st\<lparr>is_active := False\<rparr>)\<rparr>)
      | None \<Rightarrow> (None, m))"

definition add_known_threat :: "string \<Rightarrow> Monitor \<Rightarrow> Monitor" where
  "add_known_threat u m = m\<lparr>known_threats := insert u (known_threats m)\<rparr>"

definition remove_known_threat :: "string \<Rightarrow> Monitor \<Rightarrow> Monitor" where
  "remove_known_threat u m = m\<lparr>known_threats := known_threats m - {u}\<rparr>"

definition cleanup :: "string \<Rightarrow> Monitor \<Rightarrow> Monitor" where
  "cleanup pid m = m\<lparr>pages := (pages m)(pid := None)\<rparr>"

definition cleanup_all :: "Monitor \<Rightarrow> Monitor" where
  "cleanup_all m = m\<lparr>pages := Map.empty\<rparr>"

text \<open>
  \<open>RealtimeMonitor._emit_alert\<close>: the page state afterwards and the calls made to the
  callback. An exception of the callback is caught and dropped.
\<close>

definition emit_alert ::
    "Monitor \<Rightarrow> PageMonitorState \<Rightarrow> SecurityAlert \<Rightarrow> PageMonitorState \<times> SecurityAlert list" where
  "emit_alert m st alert =
     (let st1 = (if int (length (alerts st)) < max_alerts m
                 then st\<lparr>alerts := alerts st @ [alert]\<rparr> else st)
      in case alert_callback m of
           None \<Rightarrow> (st1, [])
         | Some callback \<Rightarrow>
             (case callback alert of
                Raises e \<Rightarrow> (st1, [alert])
              | Returns u \<Rightarrow> (st1, [alert])))"

text \<open>\<open>for alert in alerts: await self._emit_alert(state, alert)\<close>\<close>

fun emit_alerts ::
    "Monitor \<Rightarrow> PageMonitorState \<Rightarrow> SecurityAlert list \<Rightarrow> PageMonitorState \<times> SecurityAlert list" where
  "emit_alerts m st [] = (st, [])"
| "emit_alerts m st (alert # rest) =
     (let (st1, calls1) = emit_alert m st alert;
          (st2, calls2) = emit_alerts m st1 rest
      in (st2, calls1 @ calls2))"

subsection \<open>DOM mutations\<close>

text \<open>
  An added node: a dictionary, of which \<open>str(node)\<close> and the values of the keys \<open>tag\<close> and
  \<open>src\<close> (\<open>""\<close> when absent) are read, or another object, of which \<open>str(node)\<close> is read.
\<close>

datatype node = DictNode string string string | OtherNode string

fun node_str :: "node \<Rightarrow> string" where
  "node_str (DictNode s t r) = s"
| "node_str (OtherNode s) = s"

fun node_tag :: "node \<Rightarrow> string" where
  "node_tag (DictNode s t r) = t"
| "node_tag (OtherNode s) = []"

fun node_src :: "node \<Rightarrow> string" where
  "node_src (DictNode s t r) = r"
| "node_src (OtherNode s) = []"

text \<open>The target of a mutation, when it is a dictionary: its keys \<open>tag\<close> and \<open>action\<close>.\<close>

record Target =
  target_tag :: string
  target_action :: string

text \<open>A mutation, by the keys that are read.\<close>

record Mutation =
  mut_type :: string
  added_nodes :: "node list"
  attribute_name :: "string option"
  old_value :: string
  target :: "Target option"

text \<open>\<open>alerts.append(alert)\<close> and \<open>state.anomaly_score += w\<close>\<close>

definition raise_alert ::
    "SecurityAlert \<Rightarrow> real \<Rightarrow> SecurityAlert list \<times> PageMonitorState
       \<Rightarrow> SecurityAlert list \<times> PageMonitorState" where
  "raise_alert alert w acc =
     (fst acc @ [alert], (snd acc)\<lparr>anomaly_score := anomaly_score (snd acc) + w\<rparr>)"

text \<open>The body of the loop over the added nodes of \<open>on_dom_mutation\<close>.\<close>

definition scan_node ::
    "Patterns \<Rightarrow> string \<Rightarrow> SecurityAlert list \<times> PageMonitorState \<Rightarrow> node
       \<Rightarrow> SecurityAlert list \<times> PageMonitorState" where
  "scan_node P pid acc n =
     (let tag_name = lower (node_tag n);
          acc1 = (if tag_name = ''script'' \<or> contains (lower (node_str n)) ''<script''
                  then raise_alert
                         \<lparr>alert_type = SCRIPT_INJECTION, severity = DANGER, page_id = pid,
                          message = ScriptInsertedMessage (node_src n),
                          alert_details = [(''node'', Some (take 500 (node_str n))),
                                           (''src'', Some (node_src n))]\<rparr>
                         (3 / 10) acc
                  else acc);
          acc2 = (if tag_name = ''iframe'' \<or> contains (lower (node_str n)) ''<iframe''
                  then raise_alert
                         \<lparr>alert_type = IFRAME_INSERTION, severity = WARNING, page_id = pid,
                          message = IframeInsertedMessage (node_src n),
                          alert_details = [(''src'', Some (node_src n))]\<rparr>
                         (2 / 10) acc1
                  else acc1)
      in case suspicious_script_search P (node_str n) of
           Some pat \<Rightarrow>
             raise_alert
               \<lparr>alert_type = DOM_CLOBBERING, severity = WARNING, page_id = pid,
                message = DomPatternMessage (take 60 pat),
                alert_details = [(''pattern'', Some pat),
                                 (''content'', Some (take 300 (node_str n)))]\<rparr>
               (15 / 100) acc2
         | None \<Rightarrow> acc2)"

text \<open>The body of the loop over the mutations.\<close>

definition scan_mutation ::
    "Patterns \<Rightarrow> string \<Rightarrow> SecurityAlert list \<times> PageMonitorState \<Rightarrow> Mutation
       \<Rightarrow> SecurityAlert list \<times> PageMonitorState" where
  "scan_mutation P pid acc mu =
     (let acc1 = foldl (scan_node P pid) acc (added_nodes mu)
      in if mut_type mu = ''attributes'' \<and> attribute_name mu = Some ''action''
         then (case target mu of
                 None \<Rightarrow> acc1
               | Some t \<Rightarrow>
                   if lower (target_tag t) = ''form'' \<and> old_value mu \<noteq> target_action t
                   then raise_alert
                          \<lparr>alert_type = FORM_HIJACK, severity = CRITICAL_severity, page_id = pid,
                           message = FormActionMessage (old_value mu) (target_action t),
                           alert_details = [(''old_action'', Some (old_value mu)),
                                            (''new_action'', Some (target_action t))]\<rparr>
                          (5 / 10) acc1
                   else acc1)
         else acc1)"

text \<open>
  \<open>RealtimeMonitor.on_dom_mutation\<close>: the alerts returned, the calls made to the callback,
  and the monitor afterwards.
\<close>

definition on_dom_mutation ::
    "Patterns \<Rightarrow> string \<Rightarrow> Mutation list \<Rightarrow> Monitor
       \<Rightarrow> SecurityAlert list \<times> SecurityAlert list \<times> Monitor" where
  "on_dom_mutation P pid mutations m =
     (case pages m pid of
        None \<Rightarrow> ([], [], m)
      | Some st \<Rightarrow>
          if \<not> is_active st then ([], [], m)
          else
            let st1 = st\<lparr>mutation_count := mutation_count st + length mutations\<rparr>;
                (raised, st2) = foldl (scan_mutation P pid) ([], st1) mutations;
                (st3, calls) = emit_alerts m st2 raised
            in (raised, calls, m\<lparr>pages := (pages m)(pid \<mapsto> st3)\<rparr>))"

subsection \<open>Network requests\<close>

text \<open>A request, by the keys that are read (\<open>url\<close> and \<open>body\<close> are \<open>""\<close> when absent).\<close>

record Request =
  req_url :: string
  req_method :: "string option"
  req_body :: string

text \<open>
  \<open>RealtimeMonitor.on_network_request\<close>: the alert returned, the calls made to the callback,
  and the monitor afterwards.
\<close>

definition on_network_request ::
    "Patterns \<Rightarrow> string \<Rightarrow> Request \<Rightarrow> Monitor
       \<Rightarrow> SecurityAlert option \<times> SecurityAlert list \<times> Monitor" where
  "on_network_request P pid request m =
     (case pages m pid of
        None \<Rightarrow> (None, [], m)
      | Some st \<Rightarrow>
          if \<not> is_active st then (None, [], m)
          else
            let st1 = st\<lparr>request_count := request_count st + 1\<rparr>;
                u = req_url request;
                body = req_body request
            in if u \<in> known_threats m
               then
                 let alert = \<lparr>alert_type = SUSPICIOUS_REQUEST, severity = DANGER, page_id = pid,
                              message = KnownThreatMessage (take 100 u),
                              alert_details = [(''url'', Some u), (''method'', req_method request)]\<rparr>;
                     st2 = st1\<lparr>blocked_count := blocked_count st1 + 1\<rparr>;
                     (st3, calls) = emit_alert m st2 alert
                 in (Some alert, calls, m\<lparr>pages := (pages m)(pid \<mapsto> st3)\<rparr>)
               else
                 (case (if body \<noteq> [] then exfiltration_search P body else None) of
                    Some pat \<Rightarrow>
                      let alert = \<lparr>alert_type = DATA_EXFILTRATION, severity = CRITICAL_severity,
                                   page_id = pid, message = ExfiltrationMessage (take 80 u),
                                   alert_details = [(''url'', Some u), (''pattern'', Some pat),
                                                    (''body_preview'', Some (take 200 body))]\<rparr>;
                          st2 = st1\<lparr>anomaly_score := anomaly_score st1 + 4 / 10\<rparr>;
                          (st3, calls) = emit_alert m st2 alert
                      in (Some alert, calls, m\<lparr>pages := (pages m)(pid \<mapsto> st3)\<rparr>)
                  | None \<Rightarrow>
                      (case mining_search P u of
                         Some pat \<Rightarrow>
                           let alert = \<lparr>alert_type = CRYPTO_MINING, severity = DANGER,
                                        page_id = pid, message = MiningMessage (take 100 u),
                                        alert_details = [(''url'', Some u)]\<rparr>;
                               st2 = st1\<lparr>anomaly_score := anomaly_score st1 + 6 / 10\<rparr>;
                               (st3, calls) = emit_alert m st2 alert
                           in (Some alert, calls, m\<lparr>pages := (pages m)(pid \<mapsto> st3)\<rparr>)
                       | None \<Rightarrow> (None, [], m\<lparr>pages := (pages m)(pid \<mapsto> st1)\<rparr>))))"

subsection \<open>Runs of the monitor\<close>

text \<open>The calls of the public methods that change the monitor, and a run of them: the monitor
  afterwards and all the calls made to the callback, in order.\<close>

datatype monitor_event =
    StartMonitoring string
  | StopMonitoring string
  | DomMutation string "Mutation list"
  | NetworkRequest string Request
  | AddKnownThreat string
  | RemoveKnownThreat string
  | Cleanup string
  | CleanupAll

fun monitor_step :: "Patterns \<Rightarrow> Monitor \<times> SecurityAlert list \<Rightarrow> monitor_event
                       \<Rightarrow> Monitor \<times> SecurityAlert list" where
  "monitor_step P (m, calls) (StartMonitoring pid) = (start_monitoring pid m, calls)"
| "monitor_step P (m, calls) (StopMonitoring pid) = (snd (stop_monitoring pid m), calls)"
| "monitor_step P (m, calls) (DomMutation pid mutations) =
     (case on_dom_mutation P pid mutations m of (raised, calls1, m1) \<Rightarrow> (m1, calls @ calls1))"
| "monitor_step P (m, calls) (NetworkRequest pid request) =
     (case on_network_request P pid request m of (res, calls1, m1) \<Rightarrow> (m1, calls @ calls1))"
| "monitor_step P (m, calls) (AddKnownThreat u) = (add_known_threat u m, calls)"
| "monitor_step P (m, calls) (RemoveKnownThreat u) = (remove_known_threat u m, calls)"
| "monitor_step P (m, calls) (Cleanup pid) = (cleanup pid m, calls)"
| "monitor_step P (m, calls) CleanupAll = (cleanup_all m, calls)"

definition run_monitor :: "Patterns \<Rightarrow> Monitor \<times> SecurityAlert list \<Rightarrow> monitor_event list
                             \<Rightarrow> Monitor \<times> SecurityAlert list" where
  "run_monitor P start es = foldl (monitor_step P) start es"

text \<open>
  The amount that the code adds to the anomaly score where it raises an alert of each
  type (none for a request to a known threat, which adds to \<open>blocked_count\<close>).
\<close>

fun anomaly_weight :: "AlertType \<Rightarrow> real" where
  "anomaly_weight SCRIPT_INJECTION = 3 / 10"
| "anomaly_weight IFRAME_INSERTION = 2 / 10"
| "anomaly_weight DOM_CLOBBERING = 15 / 100"
| "anomaly_weight FORM_HIJACK = 5 / 10"
| "anomaly_weight DATA_EXFILTRATION = 4 / 10"
| "anomaly_weight CRYPTO_MINING = 6 / 10"
| "anomaly_weight SUSPICIOUS_REQUEST = 0"
| "anomaly_weight EVAL_EXECUTION = 0"

text \<open>Patterns for the concrete scenarios: a text matches when it contains the given word.\<close>

definition word_patterns :: Patterns where
  "word_patterns =
     \<lparr>mining_search = (\<lambda>s. if contains s ''coinhive'' then Some ''coinhive'' else None),
      suspicious_script_search = (\<lambda>s. if contains s ''eval('' then Some ''eval('' else None),
      exfiltration_search = (\<lambda>s. if contains s ''document.cookie'' then Some ''document.cookie'' else None)\<rparr>"

text \<open>A callback that always fails.\<close>

definition failing_callback :: "SecurityAlert \<Rightarrow> unit outcome" where
  "failing_callback alert = Raises ''RuntimeError''"

text \<open>
  A monitor with at most one alert per page, whose page \<open>p\<close> holds one alert: the state
  after \<open>start_monitoring\<close> and one request for a mining script.
\<close>

definition mining_request :: Request where
  "mining_request = \<lparr>req_url = ''http://coinhive.example/lib.js'', req_method = Some ''GET'', req_body = []\<rparr>"

definition mining_alert :: SecurityAlert where
  "mining_alert =
     \<lparr>alert_type = CRYPTO_MINING, severity = DANGER, page_id = ''p'',
      message = MiningMessage ''http://coinhive.example/lib.js'',
      alert_details = [(''url'', Some ''http://coinhive.example/lib.js'')]\<rparr>"

definition full_page :: PageMonitorState where
  "full_page =
     \<lparr>state_page_id = ''p'', is_active = True, alerts = [mining_alert], anomaly_score = 6 / 10,
      request_count = 1, blocked_count = 0, mutation_count = 0\<rparr>"

definition full_page_monitor :: Monitor where
  "full_page_monitor =
     \<lparr>pages = [''p'' \<mapsto> full_page], alert_callback = Some failing_callback, max_alerts = 1,
      known_threats = {}\<rparr>"

text \<open>A mutation that adds a node with an inline script.\<close>

definition script_mutation :: Mutation where
  "script_mutation =
     \<lparr>mut_type = ''childList'', added_nodes = [OtherNode ''<script>eval(1)</script>''],
      attribute_name = None, old_value = [], target = None\<rparr>"

section \<open>Properties of the roll-up\<close>

lemma max_level_fold_aux:
  "fold (\<lambda>e m. if m < threat_level e then threat_level e else m) ds a
     = Max (insert a (threat_level ` set ds))"
proof (induction ds arbitrary: a)
  case Nil
  then show ?case by simp
next
  case (Cons e ds)
  let ?S = "threat_level ` set ds"
  have step: "(if a < threat_level e then threat_level e else a) = max a (threat_level e)"
    by (auto simp: max_def)
  have "Max (insert (max a (threat_level e)) ?S) = Max (insert a (insert (threat_level e) ?S))"
  proof (cases "?S = {}")
    case True
    then show ?thesis by (simp add: max.commute)
  next
    case False
    then show ?thesis by (simp add: max.assoc max.commute max.left_commute)
  qed
  with Cons.IH [of "max a (threat_level e)"] step show ?case by simp
qed

lemma max_level_Max:
  "ds \<noteq> [] \<Longrightarrow> max_level ds = Max (threat_level ` set ds)"
  by (cases ds) (simp_all add: max_level_fold_aux)

lemma details_add_detail: "details (add_detail r d) = details r @ [d]"
  by (simp add: add_detail_def recalculate_def Let_def)

lemma details_foldl_add_detail: "details (foldl add_detail r ds) = details r @ ds"
  by (induction ds arbitrary: r) (simp_all add: details_add_detail)

lemma recalculate_idem_fields:
  "overall_level (recalculate r) = (if details r = [] then SAFE else max_level (details r))"
  "overall_score (recalculate r) =
     (if details r \<noteq> [] \<and> total_weight (details r) > 0
      then min 1 (weighted_sum (details r) / total_weight (details r)) else 0)"
  by (simp_all add: recalculate_def Let_def)

lemma foldl_add_detail_snoc:
  "foldl add_detail r (ds @ [d]) = add_detail (foldl add_detail r ds) d"
  by simp

lemma total_weight_Nil: "total_weight [] = 0"
  by (simp add: total_weight_def)

lemma rollup_level_fresh:
  "overall_level (foldl add_detail (new_report u now) ds)
     = (if ds = [] then SAFE else max_level ds)"
proof (cases ds rule: rev_cases)
  case Nil
  then show ?thesis by (simp add: new_report_def)
next
  case (snoc ys y)
  have "details (foldl add_detail (new_report u now) ys) = ys"
    by (simp add: details_foldl_add_detail new_report_def)
  then show ?thesis
    using snoc by (simp add: add_detail_def recalculate_idem_fields)
qed

lemma rollup_score_fresh:
  "overall_score (foldl add_detail (new_report u now) ds)
     = (if total_weight ds > 0 then min 1 (weighted_sum ds / total_weight ds) else 0)"
proof (cases ds rule: rev_cases)
  case Nil
  then show ?thesis by (simp add: new_report_def total_weight_Nil)
next
  case (snoc ys y)
  have "details (foldl add_detail (new_report u now) ys) = ys"
    by (simp add: details_foldl_add_detail new_report_def)
  then show ?thesis
    using snoc by (simp add: add_detail_def recalculate_idem_fields)
qed

lemma weighted_sum_nonneg:
  "\<forall>d\<in>set ds. 0 \<le> confidence d \<Longrightarrow> 0 \<le> weighted_sum ds"
  unfolding weighted_sum_def
  by (induction ds) simp_all

lemma weighted_sum_written_out:
  "weighted_sum ds
     = sum_list (map (\<lambda>d. confidence d *
          ((case threat_level d of SAFE \<Rightarrow> 0 | LOW \<Rightarrow> 1 | MEDIUM \<Rightarrow> 2 | HIGH \<Rightarrow> 3 | CRITICAL \<Rightarrow> 4) / 4)) ds)"
proof -
  have "real (level_value l) / real (level_value CRITICAL)
          = (case l of SAFE \<Rightarrow> 0 | LOW \<Rightarrow> 1 | MEDIUM \<Rightarrow> 2 | HIGH \<Rightarrow> 3 | CRITICAL \<Rightarrow> 4) / 4" for l
    by (cases l) simp_all
  then show ?thesis
    by (simp add: weighted_sum_def)
qed

text \<open>
  C1. For every finite sequence of findings (with confidences that are not negative, as
  the data model has them) added one by one to a fresh report, the overall level is the
  maximum threat level of the findings, SAFE when there are none. The overall score is
  the sum of confidence times level/CRITICAL over the findings (the levels counted
  SAFE = 0, LOW = 1, MEDIUM = 2, HIGH = 3, CRITICAL = 4), divided by the sum of the
  confidences and clamped to [0,1], when the sum of the confidences is positive, and 0
  otherwise.
\<close>

theorem rollup_correct:
  assumes "\<forall>d\<in>set ds. 0 \<le> confidence d"
  shows "overall_level (foldl add_detail (new_report u now) ds)
           = (if ds = [] then SAFE else Max (threat_level ` set ds))
       \<and> overall_score (foldl add_detail (new_report u now) ds)
           = (if 0 < sum_list (map confidence ds)
              then clamp
                     (sum_list (map (\<lambda>d. confidence d *
                        ((case threat_level d of
                            SAFE \<Rightarrow> 0 | LOW \<Rightarrow> 1 | MEDIUM \<Rightarrow> 2 | HIGH \<Rightarrow> 3 | CRITICAL \<Rightarrow> 4) / 4)) ds)
                      / sum_list (map confidence ds))
                     0 1
              else 0)"
proof -
  have lvl: "overall_level (foldl add_detail (new_report u now) ds)
               = (if ds = [] then SAFE else Max (threat_level ` set ds))"
    by (simp add: rollup_level_fresh max_level_Max)
  have "0 \<le> weighted_sum ds / total_weight ds" if "total_weight ds > 0"
    using that weighted_sum_nonneg [OF assms] by simp
  then have "total_weight ds > 0 \<Longrightarrow>
       clamp (weighted_sum ds / total_weight ds) 0 1 = min 1 (weighted_sum ds / total_weight ds)"
    by (simp add: clamp_def)
  then have "overall_score (foldl add_detail (new_report u now) ds)
           = (if total_weight ds > 0
              then clamp (weighted_sum ds / total_weight ds) 0 1 else 0)"
    by (simp add: rollup_score_fresh)
  then have sc: "overall_score (foldl add_detail (new_report u now) ds)
           = (if 0 < sum_list (map confidence ds)
              then clamp
                     (sum_list (map (\<lambda>d. confidence d *
                        ((case threat_level d of
                            SAFE \<Rightarrow> 0 | LOW \<Rightarrow> 1 | MEDIUM \<Rightarrow> 2 | HIGH \<Rightarrow> 3 | CRITICAL \<Rightarrow> 4) / 4)) ds)
                      / sum_list (map confidence ds))
                     0 1
              else 0)"
    unfolding weighted_sum_written_out unfolding total_weight_def .
  from lvl sc show ?thesis by (rule conjI)
qed

theorem rollup_correct_witness:
  "overall_level (foldl add_detail (new_report ''http://a.example/'' 0)
      [\<lparr>threat_type = PHISHING, threat_level = LOW, confidence = 1,
        description = UrlHeuristicDescription 1, indicators = []\<rparr>,
       \<lparr>threat_type = MALWARE, threat_level = HIGH, confidence = 1 / 2,
        description = OtherDescription ''llm'', indicators = []\<rparr>]) = HIGH
   \<and> overall_score (foldl add_detail (new_report ''http://a.example/'' 0)
      [\<lparr>threat_type = PHISHING, threat_level = LOW, confidence = 1,
        description = UrlHeuristicDescription 1, indicators = []\<rparr>,
       \<lparr>threat_type = MALWARE, threat_level = HIGH, confidence = 1 / 2,
        description = OtherDescription ''llm'', indicators = []\<rparr>]) = 5 / 12"
  using rollup_correct [of
      "[\<lparr>threat_type = PHISHING, threat_level = LOW, confidence = 1,
        description = UrlHeuristicDescription 1, indicators = []\<rparr>,
       \<lparr>threat_type = MALWARE, threat_level = HIGH, confidence = 1 / 2,
        description = OtherDescription ''llm'', indicators = []\<rparr>]"
      "''http://a.example/''" 0]
  by (simp add: clamp_def less_eq_ThreatLevel_def)

section \<open>Properties of the result cache\<close>

lemma set_cached_ok:
  assumes "cache_enabled cfg" and "0 < cache_max_size cfg"
  shows "\<exists>s1. set_cached cfg t0 key r s = Inr s1 \<and> heap s1 = heap s
     \<and> map_of (cache s1) key
          = Some \<lparr>report = r, created_at = t0, ttl = real_of_int (cache_ttl_seconds cfg)\<rparr>"
  using assms
  by (cases "cache s") (auto simp: set_cached_def Let_def update_conv split: list.splits)

text \<open>
  C6. With the cache enabled and room for at least one entry: for every key and report,
  \<open>_set_cached\<close> at time \<open>t0\<close> followed by \<open>_get_cached\<close> at time \<open>t1\<close> returns that report,
  its \<open>cached\<close> flag set, when no more than the TTL has elapsed; when more than the TTL has
  elapsed it returns \<open>None\<close> and the entry is deleted from the cache by that access.
\<close>

theorem cache_set_then_get:
  assumes "cache_enabled cfg" and "0 < cache_max_size cfg"
  shows "\<exists>s1. set_cached cfg t0 key r s = Inr s1 \<and>
    (t1 - t0 \<le> real_of_int (cache_ttl_seconds cfg) \<longrightarrow>
       fst (get_cached cfg t1 key s1) = Some r \<and>
       heap (snd (get_cached cfg t1 key s1)) r = (heap s r)\<lparr>cached := True\<rparr> \<and>
       cached (heap (snd (get_cached cfg t1 key s1)) r)) \<and>
    (t1 - t0 > real_of_int (cache_ttl_seconds cfg) \<longrightarrow>
       fst (get_cached cfg t1 key s1) = None \<and>
       map_of (cache (snd (get_cached cfg t1 key s1))) key = None \<and>
       cache (snd (get_cached cfg t1 key s1)) = AList.delete key (cache s1))"
proof -
  from set_cached_ok [OF assms, of t0 key r s] obtain s1 where
    s1: "set_cached cfg t0 key r s = Inr s1" and h: "heap s1 = heap s" and
    e: "map_of (cache s1) key
          = Some \<lparr>report = r, created_at = t0, ttl = real_of_int (cache_ttl_seconds cfg)\<rparr>"
    by blast
  have hit: "t1 - t0 \<le> real_of_int (cache_ttl_seconds cfg) \<Longrightarrow>
       get_cached cfg t1 key s1
         = (Some r, s1\<lparr>heap := (heap s1)(r := (heap s1 r)\<lparr>cached := True\<rparr>)\<rparr>)"
    using assms(1) e by (simp add: get_cached_def is_expired_def Let_def)
  have miss: "t1 - t0 > real_of_int (cache_ttl_seconds cfg) \<Longrightarrow>
       get_cached cfg t1 key s1 = (None, s1\<lparr>cache := AList.delete key (cache s1)\<rparr>)"
    using assms(1) e by (simp add: get_cached_def is_expired_def Let_def)
  show ?thesis
    using s1 h hit miss by (auto simp: delete_conv)
qed

theorem cache_set_then_get_witness:
  "cache_enabled default_llm_config \<and> 0 < cache_max_size default_llm_config \<and>
   (\<exists>s1. set_cached default_llm_config 100 ''url:k'' 0 example_agent = Inr s1 \<and>
      fst (get_cached default_llm_config 3700 ''url:k'' s1) = Some 0 \<and>
      cached (heap (snd (get_cached default_llm_config 3700 ''url:k'' s1)) 0) \<and>
      fst (get_cached default_llm_config 3701 ''url:k'' s1) = None \<and>
      map_of (cache (snd (get_cached default_llm_config 3701 ''url:k'' s1))) ''url:k'' = None)"
  using cache_set_then_get [of default_llm_config 100 "''url:k''" 0 example_agent 3700]
        cache_set_then_get [of default_llm_config 100 "''url:k''" 0 example_agent 3701]
  by (auto simp: default_llm_config_def)

text \<open>
  C5, as the code has it. A cache hit returns the very report object that the cache entry
  holds (the same reference, not a copy) and sets the \<open>cached\<close> flag of that object in
  place; the other fields of the object, every other object and the entries of the cache
  are left as they were.
\<close>

theorem cache_hit_shares_and_marks:
  assumes "get_cached cfg now key s = (Some r, s')"
  shows "\<exists>entry. map_of (cache s) key = Some entry \<and> \<not> is_expired entry now \<and> r = report entry
        \<and> cache s' = cache s
        \<and> heap s' r = (heap s r)\<lparr>cached := True\<rparr>
        \<and> (\<forall>r'. r' \<noteq> r \<longrightarrow> heap s' r' = heap s r')"
  using assms
  by (auto simp: get_cached_def Let_def split: if_splits option.splits)

theorem cache_hit_shares_and_marks_witness:
  "get_cached default_llm_config 101 ''url:k''
     (example_agent\<lparr>cache := [(''url:k'', \<lparr>report = 0, created_at = 100, ttl = 3600\<rparr>)]\<rparr>)
     = (Some 0, (example_agent\<lparr>cache := [(''url:k'', \<lparr>report = 0, created_at = 100, ttl = 3600\<rparr>)]\<rparr>)
          \<lparr>heap := (\<lambda>_. new_report ''http://a.example/'' 0)
                     (0 := (new_report ''http://a.example/'' 0)\<lparr>cached := True\<rparr>)\<rparr>)
   \<and> (\<exists>entry. map_of [(''url:k'', \<lparr>report = 0, created_at = 100, ttl = 3600\<rparr>)] ''url:k'' = Some entry
        \<and> (0::nat) = report entry)"
  using cache_hit_shares_and_marks [of default_llm_config 101 "''url:k''"
      "example_agent\<lparr>cache := [(''url:k'', \<lparr>report = 0, created_at = 100, ttl = 3600\<rparr>)]\<rparr>" 0
      "(example_agent\<lparr>cache := [(''url:k'', \<lparr>report = 0, created_at = 100, ttl = 3600\<rparr>)]\<rparr>)
          \<lparr>heap := (\<lambda>_. new_report ''http://a.example/'' 0)
                     (0 := (new_report ''http://a.example/'' 0)\<lparr>cached := True\<rparr>)\<rparr>"]
  by (simp add: get_cached_def default_llm_config_def example_agent_def is_expired_def Let_def)

text \<open>
  C5 as stated fails: the report stored by \<open>_set_cached\<close> has \<open>cached = False\<close>; after one
  \<open>_get_cached\<close> the object held by the cache entry has \<open>cached = True\<close>, and the reference
  returned is the one in the entry.
\<close>

theorem cache_hit_mutates_stored_report:
  "set_cached default_llm_config 100 ''url:k'' 0 example_agent
     = Inr (example_agent\<lparr>cache := [(''url:k'', \<lparr>report = 0, created_at = 100, ttl = 3600\<rparr>)]\<rparr>)
   \<and> cached (heap (example_agent\<lparr>cache := [(''url:k'', \<lparr>report = 0, created_at = 100, ttl = 3600\<rparr>)]\<rparr>) 0) = False
   \<and> fst (get_cached default_llm_config 101 ''url:k''
             (example_agent\<lparr>cache := [(''url:k'', \<lparr>report = 0, created_at = 100, ttl = 3600\<rparr>)]\<rparr>)) = Some 0
   \<and> map_of (cache (snd (get_cached default_llm_config 101 ''url:k''
             (example_agent\<lparr>cache := [(''url:k'', \<lparr>report = 0, created_at = 100, ttl = 3600\<rparr>)]\<rparr>)))) ''url:k''
        = Some \<lparr>report = 0, created_at = 100, ttl = 3600\<rparr>
   \<and> cached (heap (snd (get_cached default_llm_config 101 ''url:k''
             (example_agent\<lparr>cache := [(''url:k'', \<lparr>report = 0, created_at = 100, ttl = 3600\<rparr>)]\<rparr>))) 0) = True"
  by (simp add: set_cached_def get_cached_def default_llm_config_def example_agent_def
      is_expired_def Let_def new_report_def)

section \<open>The phishing analyzer on the URL of scenario A\<close>

lemma urlparse_example:
  "urlparse example_url = Returns \<lparr>scheme = ''http'', netloc = ''192.168.1.1'', path = ''/login'',
      params = [], query = [], fragment = []\<rparr>"
  by (simp add: example_url_def urlparse_def split_scheme_def split_netloc_def partition_char_def
      isalpha_def scheme_chars_def lower_def lower_char_def Let_def uses_params_def)

lemma hostname_example:
  "hostname \<lparr>scheme = ''http'', netloc = ''192.168.1.1'', path = ''/login'',
      params = [], query = [], fragment = []\<rparr> = Some ''192.168.1.1''"
  by (simp add: hostname_def hostinfo_def partition_char_def rpartition_char_def lower_def
      lower_char_def Let_def)

lemma port_example:
  "port \<lparr>scheme = ''http'', netloc = ''192.168.1.1'', path = ''/login'',
      params = [], query = [], fragment = []\<rparr> = Returns None"
  by (simp add: port_def hostinfo_def partition_char_def rpartition_char_def Let_def)

lemma typosquatting_example: "detect_typosquatting ''192.168.1.1'' = (False, [], 0)"
  by code_simp

lemma brand_example: "\<not> contains_brand_name ''192.168.1.1''"
  by (simp add: contains_brand_name_def brand_names_def lower_def lower_char_def endswith_def)

lemma homoglyphs_example: "detect_homoglyphs ''192.168.1.1'' = (False, [], ''192.168.1.1'')"
  by (simp add: detect_homoglyphs_def HOMOGLYPH_MAP_def)

lemma ip_example: "ip_pattern_match ''192.168.1.1''"
  by (simp add: ip_pattern_match_def isdigit_def)

lemma features_example:
  "extract_url_features example_url = Returns
     \<lparr>length_f = 24, entropy = calculate_entropy example_url, subdomain_count = 2,
      is_ip_address = True, is_https = False, has_port = False, port_f = None,
      special_char_ratio = 0, digit_ratio = 8 / 11, has_at_symbol = False,
      has_double_hyphen = False, encoded_char_count = 0, tld = ''.1'',
      is_suspicious_tld = False, path_depth = 0, has_homoglyphs = False,
      homoglyph_chars = [], is_typosquatting = False, similar_domain = [],
      domain_similarity = 0, contains_brand_name_f = False\<rparr>"
  unfolding extract_url_features_def urlparse_example
  apply (simp add: hostname_example port_example typosquatting_example brand_example
      homoglyphs_example ip_example Let_def)
  apply (simp add: example_url_def isalnum_def isalpha_def isdigit_def SUSPICIOUS_TLDS_def
      lower_def lower_char_def)
  done

lemma entropy_term_bound:
  fixes p :: real
  assumes "0 < p" and "1 / 2 ^ k \<le> p"
  shows "- (p * log 2 p) \<le> p * real k"
proof -
  have "log 2 (1 / 2 ^ k) \<le> log 2 p"
    using assms by (simp add: log_le_cancel_iff)
  moreover have "log 2 (1 / 2 ^ k) = - real k"
    by (simp add: log_divide log_nat_power)
  ultimately have "- real k \<le> log 2 p" by simp
  then have "p * (- real k) \<le> p * log 2 p"
    using assms(1) mult_left_mono [of "- real k" "log 2 p" p] by simp
  then show ?thesis by simp
qed

lemma entropy_term_bits:
  fixes p :: real
  assumes "1 / 32 \<le> p"
  shows "- (p * log 2 p) \<le> p * entropy_bits p"
proof -
  have pos: "0 < p" using assms by simp
  show ?thesis
  proof (cases "p \<ge> 1 / 8")
    case True
    then show ?thesis using entropy_term_bound [OF pos, of 3] by (simp add: entropy_bits_def)
  next
    case False
    show ?thesis
    proof (cases "p \<ge> 1 / 16")
      case True
      then show ?thesis using False entropy_term_bound [OF pos, of 4] by (simp add: entropy_bits_def)
    next
      case F2: False
      then show ?thesis using False assms entropy_term_bound [OF pos, of 5] by (simp add: entropy_bits_def)
    qed
  qed
qed

lemma uminus_sum_list_map:
  fixes f :: "'a \<Rightarrow> real"
  shows "- sum_list (map f xs) = sum_list (map (\<lambda>x. - f x) xs)"
  by (induction xs) simp_all

lemma calculate_entropy_bound:
  assumes "text \<noteq> []" and "length text \<le> 32"
  shows "calculate_entropy text
           \<le> sum_list (map (\<lambda>c. (real (count_list text c) / real (length text))
                                   * entropy_bits (real (count_list text c) / real (length text)))
                             (remdups text))"
proof -
  have len: "0 < length text" using assms(1) by simp
  have step: "- (let probability = real (count_list text c) / real (length text)
               in if probability > 0 then probability * log 2 probability else 0)
          \<le> (real (count_list text c) / real (length text))
                * entropy_bits (real (count_list text c) / real (length text))"
    if "c \<in> set (remdups text)" for c
  proof -
    from that have "c \<in> set text" by simp
    then have c1: "1 \<le> count_list text c"
      by (metis count_list_0_iff less_one not_le)
    have "(1::real) / 32 \<le> 1 / real (length text)"
      using len assms(2) by (simp add: field_simps)
    also have "\<dots> \<le> real (count_list text c) / real (length text)"
      using c1 len by (simp add: divide_right_mono)
    finally have p32: "1 / 32 \<le> real (count_list text c) / real (length text)" .
    have "(0::real) < 1 / 32" by simp
    with p32 have "0 < real (count_list text c) / real (length text)" by linarith
    then show ?thesis using entropy_term_bits [OF p32] by (simp add: Let_def)
  qed
  have "calculate_entropy text
          = sum_list (map (\<lambda>c. - (let probability = real (count_list text c) / real (length text)
               in if probability > 0 then probability * log 2 probability else 0)) (remdups text))"
    using assms(1) by (simp add: calculate_entropy_def uminus_sum_list_map)
  also have "\<dots> \<le> sum_list (map (\<lambda>c. (real (count_list text c) / real (length text))
                                   * entropy_bits (real (count_list text c) / real (length text)))
                             (remdups text))"
    by (rule sum_list_mono) (use step in blast)
  finally show ?thesis .
qed

lemma entropy_example: "calculate_entropy example_url \<le> 45 / 10"
proof -
  have "calculate_entropy example_url
           \<le> sum_list (map (\<lambda>c. (real (count_list example_url c) / real (length example_url))
                                   * entropy_bits (real (count_list example_url c) / real (length example_url)))
                             (remdups example_url))"
    by (rule calculate_entropy_bound) (simp_all add: example_url_def)
  also have "\<dots> = 49 / 12"
    by (simp add: example_url_def entropy_bits_def)
  finally show ?thesis by simp
qed

lemma score_example: "calculate_url_score
     \<lparr>length_f = 24, entropy = calculate_entropy example_url, subdomain_count = 2,
      is_ip_address = True, is_https = False, has_port = False, port_f = None,
      special_char_ratio = 0, digit_ratio = 8 / 11, has_at_symbol = False,
      has_double_hyphen = False, encoded_char_count = 0, tld = ''.1'',
      is_suspicious_tld = False, path_depth = 0, has_homoglyphs = False,
      homoglyph_chars = [], is_typosquatting = False, similar_domain = [],
      domain_similarity = 0, contains_brand_name_f = False\<rparr> = 56 / 100"
  using entropy_example by (simp add: calculate_url_score_def)

lemma phishing_example:
  "phishing_analyze_url threshold example_url =
     (if 56 / 100 < threshold then Returns None
      else Returns (Some
        \<lparr>threat_type = PHISHING, threat_level = MEDIUM, confidence = 56 / 100,
         description = UrlHeuristicDescription (56 / 100),
         indicators = [IndIpAddress, IndNoHttps]\<rparr>))"
  using entropy_example
  by (simp add: phishing_analyze_url_def features_example score_example score_to_level_def
      collect_url_indicators_def Let_def)

lemma overall_level_add_detail:
  "overall_level (add_detail rep d) = Max (threat_level ` set (details rep @ [d]))"
  by (simp add: add_detail_def recalculate_idem_fields max_level_Max del: max_level.simps)

lemma level_le_add_detail:
  assumes "e \<in> set (details (add_detail rep d))"
  shows "threat_level e \<le> overall_level (add_detail rep d)"
proof -
  have "threat_level e \<in> threat_level ` set (details rep @ [d])"
    using assms by (simp add: details_add_detail image_iff) blast
  then show ?thesis
    unfolding overall_level_add_detail by (intro Max_ge) simp_all
qed

lemma finish_report_ok:
  assumes "cache_enabled cfg \<longrightarrow> 0 < cache_max_size cfg"
  shows "\<exists>s'. finish_report cfg now elapsed_ms key rep s = (Inr (next_ref s), s')
           \<and> heap s' (next_ref s)
                = rep\<lparr>recommendations := generate_recommendations rep, analysis_time_ms := elapsed_ms\<rparr>"
proof (cases "cache_enabled cfg")
  case False
  then show ?thesis
    by (simp add: finish_report_def alloc_def set_cached_def Let_def)
next
  case True
  with assms have sz: "0 < cache_max_size cfg" by simp
  show ?thesis
    using True sz
    by (cases "cache s") (auto simp: finish_report_def alloc_def set_cached_def Let_def)
qed

text \<open>
  C4, as the code has it. The URL of scenario A scores 0.30 (IP address) + 0.10 (no HTTPS)
  + 0.08 (two subdomain labels) + 0.08 (digit ratio) = 0.56. When the phishing threshold is
  at most 0.56, the analyzer returns a finding of confidence 0.56 and level MEDIUM, and an
  analysis that misses the cache returns a report that holds it and has an overall level
  of at least MEDIUM, hence at least LOW, whatever the language model adds. Above 0.56, as with the default 0.7,
  the analyzer returns no finding.
\<close>

theorem scenario_A_threshold:
  assumes init: "initialized s"
    and miss: "fst (get_cached cfg now (make_cache_key H ''url'' example_url) s) = None"
    and room: "cache_enabled cfg \<longrightarrow> 0 < cache_max_size cfg"
    and phish: "run_phishing_url A = phishing_analyze_url threshold"
  shows "(threshold \<le> 56 / 100 \<longrightarrow>
            (\<exists>d r s'. phishing_analyze_url threshold example_url = Returns (Some d)
               \<and> threat_type d = PHISHING \<and> threat_level d = MEDIUM
               \<and> confidence d = 56 / 100 \<and> 30 / 100 \<le> confidence d
               \<and> analyze_url cfg H A now elapsed_ms example_url use_llm s = (Inr r, s')
               \<and> d \<in> set (details (heap s' r))
               \<and> MEDIUM \<le> overall_level (heap s' r)
               \<and> LOW \<le> overall_level (heap s' r)))
       \<and> (56 / 100 < threshold \<longrightarrow> phishing_analyze_url threshold example_url = Returns None)"
proof (intro conjI impI)
  assume "56 / 100 < threshold"
  then show "phishing_analyze_url threshold example_url = Returns None"
    by (simp add: phishing_example)
next
  assume le: "threshold \<le> 56 / 100"
  define d where "d =
     \<lparr>threat_type = PHISHING, threat_level = MEDIUM, confidence = 56 / 100,
      description = UrlHeuristicDescription (56 / 100),
      indicators = [IndIpAddress, IndNoHttps]\<rparr>"
  have pd: "phishing_analyze_url threshold example_url = Returns (Some d)"
    using le by (simp add: phishing_example d_def)
  obtain s1 where g: "get_cached cfg now (make_cache_key H ''url'' example_url) s = (None, s1)"
    using miss by (cases "get_cached cfg now (make_cache_key H ''url'' example_url) s") simp
  define rep1 where "rep1 = add_detail (new_report example_url now) d"
  define rep2 where "rep2 =
     (case llm_inference A of
        Some llm \<Rightarrow> if use_llm then add_if_not_None rep1 (with_llm (llm_url llm example_url)) else rep1
      | None \<Rightarrow> rep1)"
  have d1: "d \<in> set (details rep1)"
    by (simp add: rep1_def details_add_detail)
  have l1: "threat_level d \<le> overall_level rep1"
    unfolding rep1_def by (rule level_le_add_detail) (simp add: details_add_detail)
  have step: "d \<in> set (details (add_if_not_None rep1 x)) \<and> threat_level d \<le> overall_level (add_if_not_None rep1 x)"
    for x
  proof (cases x)
    case None
    then show ?thesis using d1 l1 by simp
  next
    case (Some e)
    have "d \<in> set (details (add_detail rep1 e))"
      using d1 by (simp add: details_add_detail)
    then show ?thesis using Some level_le_add_detail by simp
  qed
  have d2: "d \<in> set (details rep2) \<and> threat_level d \<le> overall_level rep2"
    unfolding rep2_def using step d1 l1 by (simp split: option.splits)
  from finish_report_ok [OF room, of now elapsed_ms "make_cache_key H ''url'' example_url" rep2 s1]
  obtain s' where fin: "finish_report cfg now elapsed_ms (make_cache_key H ''url'' example_url) rep2 s1
        = (Inr (next_ref s1), s')"
    and hp: "heap s' (next_ref s1)
        = rep2\<lparr>recommendations := generate_recommendations rep2, analysis_time_ms := elapsed_ms\<rparr>"
    by blast
  have run: "analyze_url cfg H A now elapsed_ms example_url use_llm s = (Inr (next_ref s1), s')"
    using init g pd phish fin [unfolded rep2_def rep1_def]
    by (simp add: analyze_url_def Let_def)
  have "threat_level d = MEDIUM" by (simp add: d_def)
  with d2 have med: "MEDIUM \<le> overall_level (heap s' (next_ref s1))"
    by (simp add: hp)
  have "LOW \<le> MEDIUM" by (simp add: less_eq_ThreatLevel_def)
  from this med have low: "LOW \<le> overall_level (heap s' (next_ref s1))"
    by (rule order_trans)
  have "d \<in> set (details (heap s' (next_ref s1)))"
    using d2 by (simp add: hp)
  with pd run low med show "\<exists>d r s'. phishing_analyze_url threshold example_url = Returns (Some d)
               \<and> threat_type d = PHISHING \<and> threat_level d = MEDIUM
               \<and> confidence d = 56 / 100 \<and> 30 / 100 \<le> confidence d
               \<and> analyze_url cfg H A now elapsed_ms example_url use_llm s = (Inr r, s')
               \<and> d \<in> set (details (heap s' r))
               \<and> MEDIUM \<le> overall_level (heap s' r)
               \<and> LOW \<le> overall_level (heap s' r)"
    by (intro exI [of _ d] exI [of _ "next_ref s1"] exI [of _ s']) (simp add: d_def)
qed

theorem scenario_A_threshold_witness:
  "(\<exists>d r s'. phishing_analyze_url (1 / 2) example_url = Returns (Some d)
       \<and> threat_level d = MEDIUM
       \<and> confidence d = 56 / 100
       \<and> analyze_url default_llm_config example_hashes (phishing_only (1 / 2) None) 0 0
            example_url True fresh_agent = (Inr r, s')
       \<and> MEDIUM \<le> overall_level (heap s' r))
   \<and> phishing_analyze_url default_phishing_threshold example_url = Returns None"
  using scenario_A_threshold [of fresh_agent default_llm_config 0 example_hashes
      "phishing_only (1 / 2) None" "1 / 2" 0 True]
    scenario_A_threshold [of fresh_agent default_llm_config 0 example_hashes
      "phishing_only default_phishing_threshold None" default_phishing_threshold 0 True]
  by (simp add: fresh_agent_def default_llm_config_def get_cached_def phishing_only_def
      default_phishing_threshold_def) blast

text \<open>
  C4 as stated fails under the default configuration: the score 0.56 is below the default
  phishing threshold 0.7, the analyzer returns no finding, and without a language model the
  report has no finding and the overall level SAFE.
\<close>

theorem scenario_A_default_is_safe:
  "phishing_analyze_url default_phishing_threshold example_url = Returns None
   \<and> fst (analyze_url default_llm_config example_hashes
            (phishing_only default_phishing_threshold None) 0 0 example_url True fresh_agent)
       = Inr 0
   \<and> details (heap (snd (analyze_url default_llm_config example_hashes
            (phishing_only default_phishing_threshold None) 0 0 example_url True fresh_agent)) 0)
       = []
   \<and> overall_level (heap (snd (analyze_url default_llm_config example_hashes
            (phishing_only default_phishing_threshold None) 0 0 example_url True fresh_agent)) 0)
       = SAFE"
  by (simp add: phishing_example default_phishing_threshold_def analyze_url_def Let_def
      fresh_agent_def default_llm_config_def get_cached_def phishing_only_def
      finish_report_def alloc_def set_cached_def new_report_def)

section \<open>Failure isolation in the orchestration\<close>

lemma details_collect_result:
  "details (collect_result rep x) = details rep @ findings_of x"
  by (cases "(rep, x)" rule: collect_result.cases)
     (simp_all add: details_add_detail details_foldl_add_detail)

lemma details_foldl_collect_result:
  "details (foldl collect_result rep xs) = details rep @ concat (map findings_of xs)"
  by (induction xs arbitrary: rep) (simp_all add: details_collect_result)

lemma overall_level_recalculated:
  "overall_level (add_detail rep d) = max_level (details (add_detail rep d))"
  by (simp add: add_detail_def recalculate_idem_fields recalculate_def Let_def del: max_level.simps)

lemma rolled_up_foldl_add_detail:
  assumes "overall_level rep = max_level (details rep)"
  shows "overall_level (foldl add_detail rep ds) = max_level (details (foldl add_detail rep ds))"
  using assms
proof (induction ds arbitrary: rep)
  case Nil
  then show ?case by simp
next
  case (Cons d ds)
  show ?case
    using Cons.IH [of "add_detail rep d"] overall_level_recalculated [of rep d] by simp
qed

lemma rolled_up_collect_result:
  assumes "overall_level rep = max_level (details rep)"
  shows "overall_level (collect_result rep x) = max_level (details (collect_result rep x))"
  using assms
  by (cases "(rep, x)" rule: collect_result.cases)
     (simp_all add: overall_level_recalculated rolled_up_foldl_add_detail del: max_level.simps)

lemma rolled_up_foldl_collect_result:
  assumes "overall_level rep = max_level (details rep)"
  shows "overall_level (foldl collect_result rep xs)
           = max_level (details (foldl collect_result rep xs))"
  using assms
  by (induction xs arbitrary: rep) (simp_all add: rolled_up_collect_result del: max_level.simps)

lemma rolled_up_add_if_not_None:
  assumes "overall_level rep = max_level (details rep)"
  shows "overall_level (add_if_not_None rep x) = max_level (details (add_if_not_None rep x))"
  using assms by (cases x) (simp_all add: overall_level_recalculated del: max_level.simps)

text \<open>
  In \<open>analyze_page\<close> a raising analyzer is isolated: whatever the four gathered analyzers
  and the language model do, a call that misses the cache returns a report, whose findings
  are those of the analyzers that returned, and whose overall level is their maximum.
\<close>

lemma analyze_page_isolation:
  assumes init: "initialized s"
    and miss: "fst (get_cached cfg now
         (make_cache_key H ''page'' (take 16 (sha256_hexdigest H (u @ '':'' @ take 1000 html)))) s) = None"
    and room: "cache_enabled cfg \<longrightarrow> 0 < cache_max_size cfg"
  shows "\<exists>r s' extra. analyze_page cfg H A now elapsed_ms u html use_llm s = (Inr r, s')
           \<and> details (heap s' r) = concat (map findings_of (page_results A u html)) @ extra
           \<and> overall_level (heap s' r) = max_level (details (heap s' r))"
proof -
  let ?key = "make_cache_key H ''page'' (take 16 (sha256_hexdigest H (u @ '':'' @ take 1000 html)))"
  obtain s1 where g: "get_cached cfg now ?key s = (None, s1)"
    using miss by (cases "get_cached cfg now ?key s") simp
  define rep1 where "rep1 = foldl collect_result (new_report u now) (page_results A u html)"
  define rep2 where "rep2 =
     (case llm_inference A of
        Some llm \<Rightarrow> if use_llm then add_if_not_None rep1 (with_llm (llm_page llm u html)) else rep1
      | None \<Rightarrow> rep1)"
  have r1: "overall_level rep1 = max_level (details rep1)"
    unfolding rep1_def by (rule rolled_up_foldl_collect_result) (simp add: new_report_def)
  have d1: "details rep1 = concat (map findings_of (page_results A u html))"
    by (simp add: rep1_def details_foldl_collect_result new_report_def)
  have opt: "\<exists>extra. details (add_if_not_None rep1 x) = details rep1 @ extra" for x
    by (cases x) (simp_all add: details_add_detail)
  have d2: "\<exists>extra. details rep2 = details rep1 @ extra"
    unfolding rep2_def using opt by (auto split: option.splits)
  have r2: "overall_level rep2 = max_level (details rep2)"
    unfolding rep2_def using r1 rolled_up_add_if_not_None [OF r1]
    by (simp split: option.splits del: max_level.simps)
  from finish_report_ok [OF room, of now elapsed_ms ?key rep2 s1]
  obtain s' where fin: "finish_report cfg now elapsed_ms ?key rep2 s1 = (Inr (next_ref s1), s')"
    and hp: "heap s' (next_ref s1)
        = rep2\<lparr>recommendations := generate_recommendations rep2, analysis_time_ms := elapsed_ms\<rparr>"
    by blast
  have run: "analyze_page cfg H A now elapsed_ms u html use_llm s = (Inr (next_ref s1), s')"
    using init g fin [unfolded rep2_def rep1_def page_results_def]
    by (simp add: analyze_page_def Let_def)
  from d2 obtain extra where "details rep2 = details rep1 @ extra" by blast
  with run hp r2 d1 show ?thesis
    by (intro exI [of _ "next_ref s1"] exI [of _ s'] exI [of _ extra]) simp
qed

lemma bad_port_raises: "phishing_analyze_url threshold bad_port_url = Raises ''ValueError''"
  by (simp add: phishing_analyze_url_def extract_url_features_def bad_port_url_def urlparse_def
      split_scheme_def split_netloc_def partition_char_def rpartition_char_def isalpha_def
      isdigit_def scheme_chars_def lower_def lower_char_def Let_def uses_params_def port_def
      hostinfo_def)

text \<open>
  C3, at an input where the code departs from it. For \<open>http://example.com:99999/\<close> the
  phishing analyzer raises \<open>ValueError\<close> (the port is out of range). \<open>analyze_url\<close> lets the
  exception through, although the language model would have reported a HIGH threat;
  \<open>analyze_page\<close>, on the same agent and URL, skips the failed analyzer and returns a report
  of overall level HIGH.
\<close>

theorem analyze_url_failure_not_isolated:
  "phishing_analyze_url default_phishing_threshold bad_port_url = Raises ''ValueError''
   \<and> analyze_url default_llm_config example_hashes
        (phishing_only default_phishing_threshold (Some llm_high)) 0 0 bad_port_url True fresh_agent
       = (Inl (AnalyzerError ''ValueError''), fresh_agent)
   \<and> fst (analyze_page default_llm_config example_hashes
        (phishing_only default_phishing_threshold (Some llm_high)) 0 0 bad_port_url
        ''<html></html>'' True fresh_agent) = Inr 0
   \<and> overall_level (heap (snd (analyze_page default_llm_config example_hashes
        (phishing_only default_phishing_threshold (Some llm_high)) 0 0 bad_port_url
        ''<html></html>'' True fresh_agent)) 0) = HIGH"
  by (simp add: bad_port_raises analyze_url_def analyze_page_def Let_def fresh_agent_def
      default_llm_config_def get_cached_def phishing_only_def llm_high_def high_detail_def
      finish_report_def alloc_def set_cached_def new_report_def add_detail_def recalculate_def
      total_weight_def weighted_sum_def less_ThreatLevel_def)

section \<open>Properties of the broadcast\<close>

lemma full_nonempty: "full q \<Longrightarrow> items q \<noteq> []"
  by (auto simp: full_def split: if_splits)

lemma offer_result:
  "offer x q = Inr (if \<not> full q then q\<lparr>items := items q @ [x]\<rparr>
                    else if full (q\<lparr>items := tl (items q)\<rparr>) then q\<lparr>items := tl (items q)\<rparr>
                    else q\<lparr>items := tl (items q) @ [x]\<rparr>)"
proof (cases "full q")
  case False
  then show ?thesis by (simp add: offer_def put_nowait_def)
next
  case True
  then obtain y ys where "items q = y # ys"
    using full_nonempty [of q] by (cases "items q") auto
  with True show ?thesis
    by (simp add: offer_def put_nowait_def get_nowait_def)
qed

lemma offer_all_result:
  "offer_all x qs = (None, map (\<lambda>q. case offer x q of Inr q' \<Rightarrow> q' | Inl e \<Rightarrow> q) qs)"
  by (induction qs) (simp_all add: offer_result)

lemma broadcast_threat_result:
  "broadcast_threat rd sv =
     (None, if r_overall_level rd = 0 then sv
            else sv\<lparr>threat_queues := map (\<lambda>q. case offer rd q of Inr q' \<Rightarrow> q' | Inl e \<Rightarrow> q)
                                        (threat_queues sv)\<rparr>)"
  by (simp add: broadcast_threat_def offer_all_result)

text \<open>
  C8. \<open>_broadcast_threat\<close> never raises, whatever the report and the queues, and it is a
  function that returns without waiting. It leaves the stored reports and the capacities
  alone, and each queue afterwards depends on that queue alone. For a report that is not
  SAFE: a queue that is not full gets the report at its end; a queue at capacity loses its
  oldest item and gets the report at its end; a queue that is still full after the oldest
  item is removed does not get the report.
\<close>

theorem broadcast_never_fails_drop_oldest:
  "fst (broadcast_threat rd sv) = None
   \<and> reports (snd (broadcast_threat rd sv)) = reports sv
   \<and> length (threat_queues (snd (broadcast_threat rd sv))) = length (threat_queues sv)
   \<and> (\<forall>i < length (threat_queues sv).
        let q = threat_queues sv ! i;
            q' = threat_queues (snd (broadcast_threat rd sv)) ! i
        in maxsize q' = maxsize q
           \<and> (r_overall_level rd = 0 \<longrightarrow> q' = q)
           \<and> (r_overall_level rd \<noteq> 0 \<longrightarrow>
                (\<not> full q \<longrightarrow> items q' = items q @ [rd])
              \<and> (full q \<and> int (length (items q)) = maxsize q \<longrightarrow>
                   items q' = tl (items q) @ [rd] \<and> last (items q') = rd
                   \<and> length (items q') = length (items q))
              \<and> (full q \<and> int (length (items q)) > maxsize q \<longrightarrow> items q' = tl (items q))))"
proof (intro conjI allI impI)
  fix i assume i: "i < length (threat_queues sv)"
  define q where "q = threat_queues sv ! i"
  define q' where "q' = threat_queues (snd (broadcast_threat rd sv)) ! i"
  have safe: "r_overall_level rd = 0 \<Longrightarrow> q' = q"
    by (simp add: q'_def q_def broadcast_threat_result)
  have q': "r_overall_level rd \<noteq> 0 \<Longrightarrow> offer rd q = Inr q'"
    using i by (simp add: q'_def q_def broadcast_threat_result offer_result)
  have m: "maxsize q' = maxsize q"
    using safe q' by (cases "r_overall_level rd = 0") (auto simp: offer_result split: if_splits)
  have a: "r_overall_level rd \<noteq> 0 \<Longrightarrow> \<not> full q \<Longrightarrow> items q' = items q @ [rd]"
    using q' by (auto simp: offer_result)
  have b: "r_overall_level rd \<noteq> 0 \<Longrightarrow> full q \<Longrightarrow> int (length (items q)) = maxsize q
        \<Longrightarrow> items q' = tl (items q) @ [rd]"
    using q' full_nonempty [of q] by (auto simp: offer_result full_def split: if_splits)
  have c: "r_overall_level rd \<noteq> 0 \<Longrightarrow> full q \<Longrightarrow> int (length (items q)) > maxsize q
        \<Longrightarrow> items q' = tl (items q)"
    using q' full_nonempty [of q] by (auto simp: offer_result full_def split: if_splits)
  have b': "full q \<Longrightarrow> length (tl (items q) @ [rd]) = length (items q)"
    using full_nonempty [of q] by simp
  show "let q = threat_queues sv ! i;
            q' = threat_queues (snd (broadcast_threat rd sv)) ! i
        in maxsize q' = maxsize q
           \<and> (r_overall_level rd = 0 \<longrightarrow> q' = q)
           \<and> (r_overall_level rd \<noteq> 0 \<longrightarrow>
                (\<not> full q \<longrightarrow> items q' = items q @ [rd])
              \<and> (full q \<and> int (length (items q)) = maxsize q \<longrightarrow>
                   items q' = tl (items q) @ [rd] \<and> last (items q') = rd
                   \<and> length (items q') = length (items q))
              \<and> (full q \<and> int (length (items q)) > maxsize q \<longrightarrow> items q' = tl (items q)))"
    unfolding Let_def q_def [symmetric] q'_def [symmetric]
    using m safe a b c b' by auto
qed (simp_all add: broadcast_threat_result)

theorem broadcast_never_fails_drop_oldest_witness:
  "fst (broadcast_threat (numbered_report 2)
          \<lparr>threat_queues = [\<lparr>items = [numbered_report 0, numbered_report 1], maxsize = 2\<rparr>,
                            new_queue 100],
           reports = [], max_reports = 1000\<rparr>) = None
   \<and> threat_queues (snd (broadcast_threat (numbered_report 2)
          \<lparr>threat_queues = [\<lparr>items = [numbered_report 0, numbered_report 1], maxsize = 2\<rparr>,
                            new_queue 100],
           reports = [], max_reports = 1000\<rparr>))
       = [\<lparr>items = [numbered_report 1, numbered_report 2], maxsize = 2\<rparr>,
          \<lparr>items = [numbered_report 2], maxsize = 100\<rparr>]"
  using broadcast_never_fails_drop_oldest [of "numbered_report 2"
          "\<lparr>threat_queues = [\<lparr>items = [numbered_report 0, numbered_report 1], maxsize = 2\<rparr>,
                            new_queue 100],
           reports = [], max_reports = 1000\<rparr>"]
  by (simp add: broadcast_threat_result offer_result full_def new_queue_def numbered_report_def)

section \<open>The security score of AnalyzePage\<close>

lemma AnalyzePage_report:
  assumes "AnalyzePage cfg H A now elapsed_ms u html use_llm (sv, s) = (ReportResponse rd, sv', s')"
  shows "\<exists>r. fst (analyze_page cfg H A now elapsed_ms u html use_llm s) = Inr r
           \<and> r_overall_score rd = overall_score (heap s' r)
           \<and> r_security_score rd = Some (max 0 (100 - py_int (overall_score (heap s' r) * 100)))"
  using assms
  by (auto simp: AnalyzePage_def Let_def report_to_dict_def
           split: if_splits prod.splits sum.splits option.splits)

lemma py_int_floor: "0 \<le> x \<Longrightarrow> py_int x = \<lfloor>x\<rfloor>"
  by (simp add: py_int_def)

text \<open>
  C9, as the code has it. In the response of a successful \<open>AnalyzePage\<close> call the security
  score is the integer \<open>max(0, 100 - int(overall_score * 100))\<close>. When the overall score of
  the report is in [0, 1], this is 100 minus the integer part of \<open>overall_score * 100\<close>: it
  lies between 0 and 100, it is at least \<open>100 - overall_score * 100\<close> and less than one
  above it, and the two are equal exactly when \<open>overall_score * 100\<close> is a whole number.
\<close>

theorem security_score_truncated:
  assumes "AnalyzePage cfg H A now elapsed_ms u html use_llm (sv, s) = (ReportResponse rd, sv', s')"
  shows "\<exists>k. r_security_score rd = Some k
           \<and> k = max 0 (100 - py_int (r_overall_score rd * 100))
           \<and> 0 \<le> k
           \<and> (0 \<le> r_overall_score rd \<and> r_overall_score rd \<le> 1 \<longrightarrow>
                k = 100 - \<lfloor>r_overall_score rd * 100\<rfloor>
                \<and> k \<le> 100
                \<and> 100 - r_overall_score rd * 100 \<le> real_of_int k
                \<and> real_of_int k < 100 - r_overall_score rd * 100 + 1
                \<and> (real_of_int k = 100 - r_overall_score rd * 100
                      \<longleftrightarrow> r_overall_score rd * 100 \<in> \<int>))"
proof -
  define x where "x = r_overall_score rd * 100"
  define k where "k = max 0 (100 - py_int x)"
  from AnalyzePage_report [OF assms]
  have sc: "r_security_score rd = Some k"
    by (auto simp: k_def x_def)
  have k0: "0 \<le> k" by (simp add: k_def)
  have rest: "k = 100 - \<lfloor>x\<rfloor> \<and> k \<le> 100 \<and> 100 - x \<le> real_of_int k
        \<and> real_of_int k < 100 - x + 1 \<and> (real_of_int k = 100 - x \<longleftrightarrow> x \<in> \<int>)"
    if "0 \<le> r_overall_score rd" and "r_overall_score rd \<le> 1"
  proof -
    have x0: "0 \<le> x" and x1: "x \<le> 100" using that by (simp_all add: x_def)
    have f0: "0 \<le> \<lfloor>x\<rfloor>" using x0 by simp
    have f1: "\<lfloor>x\<rfloor> \<le> 100" using x1 by (simp add: floor_le_iff)
    have k: "k = 100 - \<lfloor>x\<rfloor>" using f1 x0 by (simp add: k_def py_int_floor)
    have lo: "real_of_int \<lfloor>x\<rfloor> \<le> x" and hi: "x < real_of_int \<lfloor>x\<rfloor> + 1" by linarith+
    have eq: "(real_of_int \<lfloor>x\<rfloor> = x) \<longleftrightarrow> x \<in> \<int>"
      by (metis Ints_of_int floor_of_int Ints_cases)
    have c2: "k \<le> 100" using k f0 by simp
    have rk: "real_of_int k = 100 - real_of_int \<lfloor>x\<rfloor>" by (simp add: k)
    have c3: "100 - x \<le> real_of_int k" unfolding rk using lo by linarith
    have c4: "real_of_int k < 100 - x + 1" unfolding rk using hi by linarith
    have "real_of_int k = 100 - x \<longleftrightarrow> real_of_int \<lfloor>x\<rfloor> = x"
      unfolding rk by linarith
    with eq have c5: "real_of_int k = 100 - x \<longleftrightarrow> x \<in> \<int>" by simp
    show ?thesis
      using k c2 c3 c4 c5 by blast
  qed
  show ?thesis
    using sc k0 rest unfolding k_def x_def by blast
qed

theorem security_score_truncated_witness:
  "map_option r_overall_score (response_report (fst (AnalyzePage default_llm_config example_hashes
       (low_and_medium\<lparr>run_privacy_page := (\<lambda>u html. Returns None)\<rparr>) 0 0
       ''http://a.example/'' ''<html></html>'' True (new_servicer, fresh_agent)))) = Some (1 / 4)
   \<and> map_option r_security_score (response_report (fst (AnalyzePage default_llm_config example_hashes
       (low_and_medium\<lparr>run_privacy_page := (\<lambda>u html. Returns None)\<rparr>) 0 0
       ''http://a.example/'' ''<html></html>'' True (new_servicer, fresh_agent)))) = Some (Some 75)
   \<and> (75 :: int) = 100 - \<lfloor>(1 / 4 :: real) * 100\<rfloor>"
  using security_score_truncated [of default_llm_config example_hashes
       "low_and_medium\<lparr>run_privacy_page := (\<lambda>u html. Returns None)\<rparr>" 0 0
       "''http://a.example/''" "''<html></html>''" True new_servicer fresh_agent
       "the (response_report (fst (AnalyzePage default_llm_config example_hashes
          (low_and_medium\<lparr>run_privacy_page := (\<lambda>u html. Returns None)\<rparr>) 0 0
          ''http://a.example/'' ''<html></html>'' True (new_servicer, fresh_agent))))"
       "fst (snd (AnalyzePage default_llm_config example_hashes
          (low_and_medium\<lparr>run_privacy_page := (\<lambda>u html. Returns None)\<rparr>) 0 0
          ''http://a.example/'' ''<html></html>'' True (new_servicer, fresh_agent)))"
       "snd (snd (AnalyzePage default_llm_config example_hashes
          (low_and_medium\<lparr>run_privacy_page := (\<lambda>u html. Returns None)\<rparr>) 0 0
          ''http://a.example/'' ''<html></html>'' True (new_servicer, fresh_agent)))"]
  by (simp add: AnalyzePage_def analyze_page_def Let_def fresh_agent_def new_servicer_def
      default_llm_config_def example_hashes_def get_cached_def low_and_medium_def low_detail_def
      finish_report_def alloc_def set_cached_def new_report_def add_detail_def recalculate_def
      total_weight_def weighted_sum_def less_ThreatLevel_def report_to_dict_def
      detail_to_dict_def store_report_def broadcast_threat_def py_int_def make_cache_key_def
      generate_recommendations_def)

text \<open>
  C9 as stated fails when \<open>overall_score * 100\<close> is not a whole number. A page with a LOW
  finding of confidence 1 and a MEDIUM finding of confidence 0.5 has the overall score 1/3;
  the response carries the security score 67, while 100 - 100/3 is 66.67.
\<close>

theorem security_score_one_third:
  "map_option r_overall_score (response_report (fst (AnalyzePage default_llm_config example_hashes
       low_and_medium 0 0 ''http://a.example/'' ''<html></html>'' True
       (new_servicer, fresh_agent)))) = Some (1 / 3)
   \<and> map_option r_security_score (response_report (fst (AnalyzePage default_llm_config example_hashes
       low_and_medium 0 0 ''http://a.example/'' ''<html></html>'' True
       (new_servicer, fresh_agent)))) = Some (Some 67)
   \<and> real_of_int 67 \<noteq> 100 - (1 / 3) * 100"
  by (simp add: AnalyzePage_def analyze_page_def Let_def fresh_agent_def new_servicer_def
      default_llm_config_def example_hashes_def get_cached_def low_and_medium_def low_detail_def
      medium_detail_def
      finish_report_def alloc_def set_cached_def new_report_def add_detail_def recalculate_def
      total_weight_def weighted_sum_def less_ThreatLevel_def report_to_dict_def
      detail_to_dict_def store_report_def broadcast_threat_def py_int_def make_cache_key_def
      generate_recommendations_def)

section \<open>Properties of the threat stream\<close>

lemma offer_total:
  "(case offer x q of Inr q' \<Rightarrow> q' | Inl e \<Rightarrow> q)
     = (if \<not> full q then q\<lparr>items := items q @ [x]\<rparr>
        else if full (q\<lparr>items := tl (items q)\<rparr>) then q\<lparr>items := tl (items q)\<rparr>
        else q\<lparr>items := tl (items q) @ [x]\<rparr>)"
  by (simp add: offer_result)

lemma offer_items_subset:
  "set (items (case offer x q of Inr q' \<Rightarrow> q' | Inl e \<Rightarrow> q)) \<subseteq> insert x (set (items q))"
proof -
  have "set (tl (items q)) \<subseteq> set (items q)"
    by (cases "items q") auto
  then show ?thesis
    unfolding offer_total by auto
qed

lemma get_nowait_Inr:
  "get_nowait q = Inr (rd, q1) \<longleftrightarrow> items q = rd # items q1 \<and> q1 = q\<lparr>items := tl (items q)\<rparr>"
  by (cases "items q") (auto simp: get_nowait_def)

lemma system_step_lengths:
  assumes "length (threat_queues (servicer sys)) = length (subscribers sys)"
  shows "length (threat_queues (servicer (system_step sys e))) = length (subscribers (system_step sys e))"
  using assms
  by (cases e) (auto simp: broadcast_threat_result Let_def split: sum.splits prod.splits)

lemma run_system_lengths:
  assumes "length (threat_queues (servicer sys)) = length (subscribers sys)"
  shows "length (threat_queues (servicer (run_system sys es))) = length (subscribers (run_system sys es))"
  using assms unfolding run_system_def
  by (induction es arbitrary: sys) (simp_all add: system_step_lengths)

text \<open>What one event does to stream \<open>i\<close>: its queue and its generator.\<close>

lemma step_Subscribe_view:
  assumes "i < length (threat_queues (servicer sys))" and "i < length (subscribers sys)"
  shows "threat_queues (servicer (system_step sys (Subscribe m))) ! i = threat_queues (servicer sys) ! i"
    and "subscribers (system_step sys (Subscribe m)) ! i = subscribers sys ! i"
  using assms by (simp_all add: nth_append)

lemma step_Broadcast_view:
  assumes "i < length (threat_queues (servicer sys))"
  shows "threat_queues (servicer (system_step sys (Broadcast rd))) ! i
           = (if r_overall_level rd = 0 then threat_queues (servicer sys) ! i
              else (case offer rd (threat_queues (servicer sys) ! i) of Inr q' \<Rightarrow> q' | Inl e \<Rightarrow> threat_queues (servicer sys) ! i))"
    and "subscribers (system_step sys (Broadcast rd)) = subscribers sys"
  using assms by (simp_all add: broadcast_threat_result)

lemma step_Consume_view:
  assumes "i < length (threat_queues (servicer sys))" and "i < length (subscribers sys)"
  shows "threat_queues (servicer (system_step sys (Consume j))) ! i
           = (if j = i \<and> items (threat_queues (servicer sys) ! i) \<noteq> []
              then (threat_queues (servicer sys) ! i)\<lparr>items := tl (items (threat_queues (servicer sys) ! i))\<rparr>
              else threat_queues (servicer sys) ! i)"
    and "subscribers (system_step sys (Consume j)) ! i
           = (if j = i \<and> items (threat_queues (servicer sys) ! i) \<noteq> []
                \<and> min_level (subscribers sys ! i) \<le> int (r_overall_level (hd (items (threat_queues (servicer sys) ! i))))
              then (subscribers sys ! i)\<lparr>delivered := delivered (subscribers sys ! i)
                                           @ [hd (items (threat_queues (servicer sys) ! i))]\<rparr>
              else subscribers sys ! i)"
  using assms
  by (cases "items (threat_queues (servicer sys) ! j)";
      auto simp: get_nowait_def Let_def nth_list_update)+

lemma step_keeps_index:
  assumes "i < length (threat_queues (servicer sys))" and "i < length (subscribers sys)"
  shows "i < length (threat_queues (servicer (system_step sys e)))
         \<and> i < length (subscribers (system_step sys e))
         \<and> min_level (subscribers (system_step sys e) ! i) = min_level (subscribers sys ! i)"
proof (cases e)
  case (Subscribe m)
  then show ?thesis using assms by (simp add: nth_append)
next
  case (Broadcast rd)
  then show ?thesis using assms by (simp add: broadcast_threat_result)
next
  case (Consume j)
  have "length (threat_queues (servicer (system_step sys (Consume j)))) = length (threat_queues (servicer sys))"
    "length (subscribers (system_step sys (Consume j))) = length (subscribers sys)"
    by (auto simp: Let_def split: sum.splits prod.splits)
  then show ?thesis
    using assms Consume step_Consume_view(2) [OF assms, of j] by simp
qed

lemma stream_safe_step:
  assumes i: "i < length (threat_queues (servicer sys))" "i < length (subscribers sys)"
    and q: "\<forall>rd \<in> set (items (threat_queues (servicer sys) ! i)). r_overall_level rd \<noteq> 0"
    and d: "\<forall>rd \<in> set (delivered (subscribers sys ! i)).
              min_level (subscribers sys ! i) \<le> int (r_overall_level rd) \<and> r_overall_level rd \<noteq> 0"
  shows "(\<forall>rd \<in> set (items (threat_queues (servicer (system_step sys e)) ! i)). r_overall_level rd \<noteq> 0)
       \<and> (\<forall>rd \<in> set (delivered (subscribers (system_step sys e) ! i)).
              min_level (subscribers sys ! i) \<le> int (r_overall_level rd) \<and> r_overall_level rd \<noteq> 0)"
proof (cases e)
  case (Subscribe m)
  then show ?thesis
    using q d step_Subscribe_view [OF i, of m] by simp
next
  case (Broadcast rd)
  show ?thesis
  proof (cases "r_overall_level rd = 0")
    case True
    then show ?thesis
      using Broadcast q d step_Broadcast_view [OF i(1), of rd] by simp
  next
    case False
    have "set (items (threat_queues (servicer (system_step sys e)) ! i))
            \<subseteq> insert rd (set (items (threat_queues (servicer sys) ! i)))"
      using Broadcast False step_Broadcast_view(1) [OF i(1), of rd]
        offer_items_subset [where x = rd and q = "threat_queues (servicer sys) ! i"] by simp
    then show ?thesis
      using Broadcast False q d step_Broadcast_view(2) [OF i(1), of rd] by auto
  qed
next
  case (Consume j)
  let ?q = "threat_queues (servicer sys) ! i"
  have tl: "set (tl (items ?q)) \<subseteq> set (items ?q)"
    by (cases "items ?q") auto
  have hd: "items ?q \<noteq> [] \<Longrightarrow> hd (items ?q) \<in> set (items ?q)"
    by simp
  show ?thesis
    using Consume q d tl hd step_Consume_view [OF i, of j] by auto
qed

lemma stream_safe_run:
  assumes "i < length (threat_queues (servicer sys))" "i < length (subscribers sys)"
    and "\<forall>rd \<in> set (items (threat_queues (servicer sys) ! i)). r_overall_level rd \<noteq> 0"
    and "\<forall>rd \<in> set (delivered (subscribers sys ! i)).
              min_level (subscribers sys ! i) \<le> int (r_overall_level rd) \<and> r_overall_level rd \<noteq> 0"
  shows "min_level (subscribers (run_system sys es) ! i) = min_level (subscribers sys ! i)
       \<and> (\<forall>rd \<in> set (items (threat_queues (servicer (run_system sys es)) ! i)). r_overall_level rd \<noteq> 0)
       \<and> (\<forall>rd \<in> set (delivered (subscribers (run_system sys es) ! i)).
              min_level (subscribers sys ! i) \<le> int (r_overall_level rd) \<and> r_overall_level rd \<noteq> 0)"
  using assms
proof (induction es arbitrary: sys)
  case Nil
  then show ?case by (simp add: run_system_def)
next
  case (Cons e es)
  have k: "i < length (threat_queues (servicer (system_step sys e)))"
      "i < length (subscribers (system_step sys e))"
      "min_level (subscribers (system_step sys e) ! i) = min_level (subscribers sys ! i)"
    using step_keeps_index [OF Cons.prems(1,2), of e] by simp_all
  have s: "(\<forall>rd \<in> set (items (threat_queues (servicer (system_step sys e)) ! i)). r_overall_level rd \<noteq> 0)"
     "(\<forall>rd \<in> set (delivered (subscribers (system_step sys e) ! i)).
         min_level (subscribers (system_step sys e) ! i) \<le> int (r_overall_level rd) \<and> r_overall_level rd \<noteq> 0)"
    using stream_safe_step [OF Cons.prems, of e] k(3) by simp_all
  show ?case
    using Cons.IH [OF k(1,2) s] k(3) by (simp add: run_system_def)
qed

lemma stream_exact_run:
  assumes "i < length (threat_queues (servicer sys))" "i < length (subscribers sys)"
    and "no_overflow i sys es"
  shows "delivered (subscribers (run_system sys es) ! i)
           @ filter (\<lambda>rd. min_level (subscribers sys ! i) \<le> int (r_overall_level rd))
               (items (threat_queues (servicer (run_system sys es)) ! i))
         = delivered (subscribers sys ! i)
           @ filter (\<lambda>rd. min_level (subscribers sys ! i) \<le> int (r_overall_level rd))
               (items (threat_queues (servicer sys) ! i) @ broadcasts es)"
  using assms
proof (induction es arbitrary: sys)
  case Nil
  then show ?case by (simp add: run_system_def)
next
  case (Cons e es)
  let ?P = "\<lambda>rd. min_level (subscribers sys ! i) \<le> int (r_overall_level rd)"
  let ?q = "threat_queues (servicer sys) ! i"
  have k: "i < length (threat_queues (servicer (system_step sys e)))"
      "i < length (subscribers (system_step sys e))"
      "min_level (subscribers (system_step sys e) ! i) = min_level (subscribers sys ! i)"
    using step_keeps_index [OF Cons.prems(1,2), of e] by simp_all
  have n: "no_overflow i (system_step sys e) es"
    using Cons.prems(3) by (cases e) simp_all
  have one: "delivered (subscribers (system_step sys e) ! i)
               @ filter ?P (items (threat_queues (servicer (system_step sys e)) ! i))
             = delivered (subscribers sys ! i) @ filter ?P (items ?q @ broadcasts [e])"
  proof (cases e)
    case (Subscribe m)
    then show ?thesis
      using step_Subscribe_view [OF Cons.prems(1,2), of m] by simp
  next
    case (Broadcast rd)
    then have "r_overall_level rd = 0 \<or> \<not> full ?q"
      using Cons.prems(3) by simp
    then show ?thesis
      using Broadcast step_Broadcast_view [OF Cons.prems(1), of rd]
      by (auto simp: offer_total)
  next
    case (Consume j)
    show ?thesis
      using Consume step_Consume_view [OF Cons.prems(1,2), of j]
      by (cases "items ?q") auto
  qed
  have b: "broadcasts (e # es) = broadcasts [e] @ broadcasts es"
    by (cases e) simp_all
  have "delivered (subscribers (run_system sys (e # es)) ! i)
           @ filter ?P (items (threat_queues (servicer (run_system sys (e # es))) ! i))
        = delivered (subscribers (system_step sys e) ! i)
           @ filter ?P (items (threat_queues (servicer (system_step sys e)) ! i) @ broadcasts es)"
    using Cons.IH [OF k(1,2) n] k(3) by (simp add: run_system_def)
  also have "\<dots> = delivered (subscribers sys ! i) @ filter ?P (items ?q @ broadcasts (e # es))"
    using one unfolding b by (simp del: broadcasts.simps)
  finally show ?case .
qed

lemma broadcasts_not_safe: "\<forall>rd \<in> set (broadcasts es). r_overall_level rd \<noteq> 0"
  by (induction es rule: broadcasts.induct) simp_all

lemma store_report_last:
  assumes "0 < max_reports sv"
  shows "last (reports (store_report rd sv)) = rd"
proof -
  have "length (reports sv) - (max_reports sv - Suc 0) < Suc (length (reports sv))"
    by simp
  then show ?thesis
    using assms by (simp add: store_report_def last_items_def Let_def Suc_diff_le last_drop)
qed

lemma run_system_append: "run_system sys (xs @ ys) = run_system (run_system sys xs) ys"
  by (simp add: run_system_def)

lemma burst_Suc: "burst (Suc n) = burst n @ [Broadcast (numbered_report n)]"
  by (simp add: burst_def)

lemma numbered_report_not_safe: "r_overall_level (numbered_report k) = 3"
  by (simp add: numbered_report_def)

lemma burst_fills:
  assumes "n \<le> 100"
  shows "run_system (system_step new_system (Subscribe 1)) (burst n)
           = \<lparr>servicer = \<lparr>threat_queues = [\<lparr>items = map numbered_report [0..<n], maxsize = 100\<rparr>],
                           reports = [], max_reports = 1000\<rparr>,
              subscribers = [\<lparr>min_level = 1, delivered = []\<rparr>]\<rparr>"
  using assms
proof (induction n)
  case 0
  then show ?case
    by (simp add: burst_def run_system_def new_system_def new_servicer_def new_queue_def)
next
  case (Suc n)
  then have "n < 100" by simp
  then have nf: "\<not> full \<lparr>items = map numbered_report [0..<n], maxsize = 100\<rparr>"
    by (simp add: full_def)
  show ?case
    using Suc nf
    by (simp add: burst_Suc run_system_append)
       (simp add: run_system_def broadcast_threat_result offer_total numbered_report_not_safe)
qed

lemma two_streams_state:
  "run_system (system_step (run_system new_system [Subscribe 3]) (Subscribe 1))
       [Broadcast (numbered_report 0), Consume 1, Broadcast (numbered_report 1)]
   = \<lparr>servicer = \<lparr>threat_queues = [\<lparr>items = [numbered_report 0, numbered_report 1], maxsize = 100\<rparr>,
                                      \<lparr>items = [numbered_report 1], maxsize = 100\<rparr>],
                     reports = [], max_reports = 1000\<rparr>,
      subscribers = [\<lparr>min_level = 3, delivered = []\<rparr>,
                     \<lparr>min_level = 1, delivered = [numbered_report 0]\<rparr>]\<rparr>"
  by (simp add: run_system_def new_system_def new_servicer_def new_queue_def
      broadcast_threat_result offer_total full_def get_nowait_def numbered_report_not_safe Let_def)

lemma two_streams_no_overflow:
  "no_overflow 1 (system_step (run_system new_system [Subscribe 3]) (Subscribe 1))
        [Broadcast (numbered_report 0), Consume 1, Broadcast (numbered_report 1)]"
  by (simp add: run_system_def new_system_def new_servicer_def new_queue_def
      broadcast_threat_result offer_total full_def get_nowait_def numbered_report_not_safe Let_def)

text \<open>
  C7, as the code has it. Take any stream: it is opened with minimum level \<open>m\<close> after some
  events \<open>es0\<close> and then followed through any events \<open>es\<close>. Every report it has yielded has
  a level of at least \<open>m\<close> and is not SAFE. A SAFE report is stored by \<open>_store_report\<close> and
  leaves every queue as it is. As long as no report is broadcast while the queue of the
  stream is full (it holds 100 reports), the stream has yielded, or still holds in its
  queue, exactly the broadcast reports of level at least \<open>m\<close>, in their order; for
  \<open>m\<close> = LOW or below these are all the reports that are not SAFE.
\<close>

theorem stream_filtering:
  "let sys0 = run_system new_system es0;
       i = length (subscribers sys0);
       sys1 = system_step sys0 (Subscribe m);
       sys = run_system sys1 es;
       sub = subscribers sys ! i;
       q = threat_queues (servicer sys) ! i
   in min_level sub = m
      \<and> (\<forall>rd \<in> set (delivered sub). m \<le> int (r_overall_level rd) \<and> r_overall_level rd \<noteq> 0)
      \<and> (r_overall_level rd0 = 0 \<longrightarrow> broadcast_threat rd0 sv = (None, sv))
      \<and> (0 < max_reports sv \<longrightarrow> last (reports (store_report rd0 sv)) = rd0)
      \<and> (no_overflow i sys1 es \<longrightarrow>
            delivered sub @ filter (\<lambda>rd. m \<le> int (r_overall_level rd)) (items q)
              = filter (\<lambda>rd. m \<le> int (r_overall_level rd)) (broadcasts es))
      \<and> (m \<le> 1 \<and> no_overflow i sys1 es \<longrightarrow> delivered sub @ items q = broadcasts es)"
proof -
  define sys0 where "sys0 = run_system new_system es0"
  define i where "i = length (subscribers sys0)"
  define sys1 where "sys1 = system_step sys0 (Subscribe m)"
  define sys where "sys = run_system sys1 es"
  define sub where "sub = subscribers sys ! i"
  define q where "q = threat_queues (servicer sys) ! i"
  let ?P = "\<lambda>rd. m \<le> int (r_overall_level rd)"
  have len0: "length (threat_queues (servicer sys0)) = length (subscribers sys0)"
    unfolding sys0_def by (rule run_system_lengths) (simp add: new_system_def new_servicer_def)
  have i1: "i < length (threat_queues (servicer sys1))" "i < length (subscribers sys1)"
    using len0 by (simp_all add: sys1_def i_def)
  have q1: "items (threat_queues (servicer sys1) ! i) = []"
    using len0 by (simp add: sys1_def i_def nth_append new_queue_def)
  have s1: "subscribers sys1 ! i = \<lparr>min_level = m, delivered = []\<rparr>"
    by (simp add: sys1_def i_def nth_append)
  from stream_safe_run [OF i1, of es] q1 s1
  have ml: "min_level sub = m"
    and qs: "\<forall>rd \<in> set (items q). r_overall_level rd \<noteq> 0"
    and ds: "\<forall>rd \<in> set (delivered sub). m \<le> int (r_overall_level rd) \<and> r_overall_level rd \<noteq> 0"
    by (simp_all add: sub_def q_def sys_def)
  have ex: "delivered sub @ filter ?P (items q) = filter ?P (broadcasts es)"
    if "no_overflow i sys1 es"
    using stream_exact_run [OF i1 that] q1 s1 by (simp add: sub_def q_def sys_def)
  have all: "delivered sub @ items q = broadcasts es" if "m \<le> 1" and "no_overflow i sys1 es"
  proof -
    have "filter ?P (items q) = items q"
      using qs that(1) by (auto simp: filter_id_conv)
    moreover have "filter ?P (broadcasts es) = broadcasts es"
      using broadcasts_not_safe [of es] that(1) by (auto simp: filter_id_conv)
    ultimately show ?thesis using ex [OF that(2)] by simp
  qed
  have safe: "r_overall_level rd0 = 0 \<longrightarrow> broadcast_threat rd0 sv = (None, sv)"
    by (simp add: broadcast_threat_def)
  have stored: "0 < max_reports sv \<longrightarrow> last (reports (store_report rd0 sv)) = rd0"
    by (simp add: store_report_last)
  show ?thesis
    unfolding Let_def sys0_def [symmetric] i_def [symmetric] sys1_def [symmetric]
      sys_def [symmetric] sub_def [symmetric] q_def [symmetric]
    using ml ds safe stored ex all by blast
qed

theorem stream_filtering_witness:
  "delivered (subscribers (run_system (system_step (run_system new_system [Subscribe 3]) (Subscribe 1))
       [Broadcast (numbered_report 0), Consume 1, Broadcast (numbered_report 1)]) ! 1)
     = [numbered_report 0]
   \<and> items (threat_queues (servicer (run_system
          (system_step (run_system new_system [Subscribe 3]) (Subscribe 1))
          [Broadcast (numbered_report 0), Consume 1, Broadcast (numbered_report 1)])) ! 1)
     = [numbered_report 1]
   \<and> no_overflow 1 (system_step (run_system new_system [Subscribe 3]) (Subscribe 1))
        [Broadcast (numbered_report 0), Consume 1, Broadcast (numbered_report 1)]
   \<and> broadcasts [Broadcast (numbered_report 0), Consume 1, Broadcast (numbered_report 1)]
     = [numbered_report 0, numbered_report 1]
   \<and> broadcast_threat ((numbered_report 0)\<lparr>r_overall_level := 0\<rparr>) new_servicer = (None, new_servicer)
   \<and> last (reports (store_report ((numbered_report 0)\<lparr>r_overall_level := 0\<rparr>) new_servicer))
     = (numbered_report 0)\<lparr>r_overall_level := 0\<rparr>"
proof -
  have l: "length (subscribers (run_system new_system [Subscribe 3])) = 1"
    by (simp add: run_system_def new_system_def)
  have m: "0 < max_reports new_servicer"
    by (simp add: new_servicer_def)
  have b: "broadcasts [Broadcast (numbered_report 0), Consume 1, Broadcast (numbered_report 1)]
     = [numbered_report 0, numbered_report 1]"
    by (simp add: numbered_report_not_safe)
  have z: "r_overall_level ((numbered_report 0)\<lparr>r_overall_level := 0\<rparr>) = 0"
    by simp
  have "delivered (subscribers (run_system (system_step (run_system new_system [Subscribe 3]) (Subscribe 1))
       [Broadcast (numbered_report 0), Consume 1, Broadcast (numbered_report 1)]) ! 1)
      @ items (threat_queues (servicer (run_system
          (system_step (run_system new_system [Subscribe 3]) (Subscribe 1))
          [Broadcast (numbered_report 0), Consume 1, Broadcast (numbered_report 1)])) ! 1)
      = broadcasts [Broadcast (numbered_report 0), Consume 1, Broadcast (numbered_report 1)]
    \<and> broadcast_threat ((numbered_report 0)\<lparr>r_overall_level := 0\<rparr>) new_servicer = (None, new_servicer)
    \<and> last (reports (store_report ((numbered_report 0)\<lparr>r_overall_level := 0\<rparr>) new_servicer))
       = (numbered_report 0)\<lparr>r_overall_level := 0\<rparr>"
    using stream_filtering [of "[Subscribe 3]" 1
      "[Broadcast (numbered_report 0), Consume 1, Broadcast (numbered_report 1)]"
      "(numbered_report 0)\<lparr>r_overall_level := 0\<rparr>" new_servicer]
      two_streams_no_overflow m z
    unfolding Let_def l by blast
  then show ?thesis
    using two_streams_no_overflow b unfolding two_streams_state by simp
qed

lemma burst_overflows:
  "run_system (system_step new_system (Subscribe 1)) (burst 101)
     = \<lparr>servicer = \<lparr>threat_queues = [\<lparr>items = map numbered_report [1..<101], maxsize = 100\<rparr>],
                     reports = [], max_reports = 1000\<rparr>,
        subscribers = [\<lparr>min_level = 1, delivered = []\<rparr>]\<rparr>"
proof -
  have b: "burst 101 = burst 100 @ [Broadcast (numbered_report 100)]"
    using burst_Suc [of 100] by simp
  have f: "full \<lparr>items = map numbered_report [0..<100], maxsize = 100\<rparr>"
    by (simp add: full_def)
  have nf: "\<not> full \<lparr>items = tl (map numbered_report [0..<100]), maxsize = 100\<rparr>"
    by (simp add: full_def)
  have t: "tl (map numbered_report [0..<100]) @ [numbered_report 100] = map numbered_report [1..<101]"
  proof -
    have "tl (map numbered_report [0..<100]) = map numbered_report (tl [0..<100])"
      by (rule map_tl [symmetric])
    then have "tl (map numbered_report [0..<100]) = map numbered_report [Suc 0..<100]"
      by (simp only: tl_upt)
    moreover have "[Suc 0..<101] = [Suc 0..<100] @ [100]"
      using upt_Suc_append [of "Suc 0" 100] by simp
    ultimately show ?thesis by simp
  qed
  have s100: "run_system (system_step new_system (Subscribe 1)) (burst 100)
           = \<lparr>servicer = \<lparr>threat_queues = [\<lparr>items = map numbered_report [0..<100], maxsize = 100\<rparr>],
                           reports = [], max_reports = 1000\<rparr>,
              subscribers = [\<lparr>min_level = 1, delivered = []\<rparr>]\<rparr>"
    by (rule burst_fills) simp
  have "run_system (system_step new_system (Subscribe 1)) (burst 101)
          = run_system (run_system (system_step new_system (Subscribe 1)) (burst 100))
              [Broadcast (numbered_report 100)]"
    by (simp only: b run_system_append)
  also have "\<dots> = \<lparr>servicer = \<lparr>threat_queues = [\<lparr>items = map numbered_report [1..<101], maxsize = 100\<rparr>],
                     reports = [], max_reports = 1000\<rparr>,
        subscribers = [\<lparr>min_level = 1, delivered = []\<rparr>]\<rparr>"
    unfolding s100 using f nf t
    by (simp add: run_system_def broadcast_threat_result offer_total numbered_report_not_safe)
  finally show ?thesis .
qed

lemma consume_all:
  assumes "\<forall>rd \<in> set xs. 1 \<le> r_overall_level rd"
  shows "run_system \<lparr>servicer = \<lparr>threat_queues = [\<lparr>items = xs, maxsize = c\<rparr>],
                                  reports = rs, max_reports = mr\<rparr>,
                     subscribers = [\<lparr>min_level = 1, delivered = ds\<rparr>]\<rparr>
           (replicate k (Consume 0))
         = \<lparr>servicer = \<lparr>threat_queues = [\<lparr>items = drop k xs, maxsize = c\<rparr>],
                         reports = rs, max_reports = mr\<rparr>,
            subscribers = [\<lparr>min_level = 1, delivered = ds @ take k xs\<rparr>]\<rparr>"
  using assms
proof (induction k arbitrary: xs ds)
  case 0
  then show ?case by (simp add: run_system_def)
next
  case (Suc k)
  show ?case
  proof (cases xs)
    case Nil
    have "run_system \<lparr>servicer = \<lparr>threat_queues = [\<lparr>items = [], maxsize = c\<rparr>],
                                  reports = rs, max_reports = mr\<rparr>,
                     subscribers = [\<lparr>min_level = 1, delivered = ds\<rparr>]\<rparr>
           (replicate j (Consume 0))
         = \<lparr>servicer = \<lparr>threat_queues = [\<lparr>items = [], maxsize = c\<rparr>],
                                  reports = rs, max_reports = mr\<rparr>,
                     subscribers = [\<lparr>min_level = 1, delivered = ds\<rparr>]\<rparr>" for j
      by (induction j) (simp_all add: run_system_def get_nowait_def)
    from this [of "Suc k"] show ?thesis unfolding Nil by simp
  next
    case (Cons x xs')
    then have x: "1 \<le> r_overall_level x" and xs': "\<forall>rd \<in> set xs'. 1 \<le> r_overall_level rd"
      using Suc.prems by simp_all
    have "run_system \<lparr>servicer = \<lparr>threat_queues = [\<lparr>items = x # xs', maxsize = c\<rparr>],
                                  reports = rs, max_reports = mr\<rparr>,
                     subscribers = [\<lparr>min_level = 1, delivered = ds\<rparr>]\<rparr>
           (replicate (Suc k) (Consume 0))
          = run_system \<lparr>servicer = \<lparr>threat_queues = [\<lparr>items = xs', maxsize = c\<rparr>],
                                  reports = rs, max_reports = mr\<rparr>,
                     subscribers = [\<lparr>min_level = 1, delivered = ds @ [x]\<rparr>]\<rparr>
           (replicate k (Consume 0))"
      using x by (simp add: run_system_def get_nowait_def Let_def)
    then show ?thesis
      using Suc.IH [OF xs', of "ds @ [x]"] Cons by simp
  qed
qed

lemma broadcasts_append: "broadcasts (xs @ ys) = broadcasts xs @ broadcasts ys"
  by (induction xs rule: broadcasts.induct) simp_all

lemma numbered_report_inj: "numbered_report j = numbered_report k \<longleftrightarrow> j = k"
  by (auto simp: numbered_report_def)

text \<open>
  C7 as stated fails for the last part. A stream with minimum level LOW is opened, 101
  reports of level HIGH are broadcast before its generator runs, and then the generator
  empties the queue. The first report was dropped from the full queue at the last
  broadcast: the stream never yields it.
\<close>

theorem stream_overflow_loses_report:
  "r_overall_level (numbered_report 0) = 3
   \<and> numbered_report 0 \<in> set (broadcasts (burst 101))
   \<and> min_level (subscribers (run_system (system_step new_system (Subscribe 1))
        (burst 101 @ replicate 101 (Consume 0))) ! 0) = 1
   \<and> items (threat_queues (servicer (run_system (system_step new_system (Subscribe 1))
        (burst 101 @ replicate 101 (Consume 0)))) ! 0) = []
   \<and> length (delivered (subscribers (run_system (system_step new_system (Subscribe 1))
        (burst 101 @ replicate 101 (Consume 0))) ! 0)) = 100
   \<and> numbered_report 0 \<notin> set (delivered (subscribers (run_system (system_step new_system (Subscribe 1))
        (burst 101 @ replicate 101 (Consume 0))) ! 0))"
proof -
  have fin: "run_system (system_step new_system (Subscribe 1)) (burst 101 @ replicate 101 (Consume 0))
     = \<lparr>servicer = \<lparr>threat_queues = [\<lparr>items = [], maxsize = 100\<rparr>],
                     reports = [], max_reports = 1000\<rparr>,
        subscribers = [\<lparr>min_level = 1, delivered = map numbered_report [1..<101]\<rparr>]\<rparr>"
    unfolding run_system_append burst_overflows
    by (subst consume_all) (simp_all add: numbered_report_not_safe)
  have b: "broadcasts (burst n) = map numbered_report [0..<n]" for n
    by (induction n) (simp_all add: burst_def broadcasts_append numbered_report_not_safe)
  show ?thesis
    unfolding fin by (simp add: b numbered_report_not_safe numbered_report_inj image_iff)
qed

section \<open>Properties of the realtime monitor\<close>

lemma emit_alert_result:
  "emit_alert m st a =
     (if int (length (alerts st)) < max_alerts m then st\<lparr>alerts := alerts st @ [a]\<rparr> else st,
      if alert_callback m = None then [] else [a])"
  by (simp add: emit_alert_def split: option.splits outcome.splits)

lemma emit_alerts_result:
  "emit_alerts m st as =
     (st\<lparr>alerts := alerts st @ take (nat (max_alerts m - int (length (alerts st)))) as\<rparr>,
      if alert_callback m = None then [] else as)"
proof (induction as arbitrary: st)
  case Nil
  then show ?case by simp
next
  case (Cons a as)
  show ?case
  proof (cases "int (length (alerts st)) < max_alerts m")
    case True
    then have "nat (max_alerts m - int (length (alerts st)))
                 = Suc (nat (max_alerts m - int (length (alerts st @ [a]))))"
      by simp
    then show ?thesis
      using True by (simp add: emit_alert_result Cons.IH)
  next
    case False
    then have "nat (max_alerts m - int (length (alerts st))) = 0"
      by simp
    then show ?thesis
      using False by (simp add: emit_alert_result Cons.IH)
  qed
qed

lemma raise_alert_grows:
  assumes "\<exists>new. acc = (as @ new,
              st\<lparr>anomaly_score := anomaly_score st
                     + sum_list (map (\<lambda>a. anomaly_weight (alert_type a)) new)\<rparr>)"
    and "w = anomaly_weight (alert_type a)"
  shows "\<exists>new. raise_alert a w acc = (as @ new,
              st\<lparr>anomaly_score := anomaly_score st
                     + sum_list (map (\<lambda>a. anomaly_weight (alert_type a)) new)\<rparr>)"
proof -
  from assms(1) obtain new where "acc = (as @ new,
              st\<lparr>anomaly_score := anomaly_score st
                     + sum_list (map (\<lambda>a. anomaly_weight (alert_type a)) new)\<rparr>)"
    by blast
  then have "raise_alert a w acc = (as @ (new @ [a]),
              st\<lparr>anomaly_score := anomaly_score st
                     + sum_list (map (\<lambda>a. anomaly_weight (alert_type a)) (new @ [a]))\<rparr>)"
    using assms(2) by (simp add: raise_alert_def)
  then show ?thesis by blast
qed

lemma scan_node_grows:
  assumes "\<exists>new. acc = (as @ new,
              st\<lparr>anomaly_score := anomaly_score st
                     + sum_list (map (\<lambda>a. anomaly_weight (alert_type a)) new)\<rparr>)"
  shows "\<exists>new. scan_node P pid acc n = (as @ new,
              st\<lparr>anomaly_score := anomaly_score st
                     + sum_list (map (\<lambda>a. anomaly_weight (alert_type a)) new)\<rparr>)"
  unfolding scan_node_def Let_def
  by (intro raise_alert_grows assms | simp split: option.split if_split
      | intro conjI impI allI)+

lemma foldl_scan_node_grows:
  assumes "\<exists>new. acc = (as @ new,
              st\<lparr>anomaly_score := anomaly_score st
                     + sum_list (map (\<lambda>a. anomaly_weight (alert_type a)) new)\<rparr>)"
  shows "\<exists>new. foldl (scan_node P pid) acc ns = (as @ new,
              st\<lparr>anomaly_score := anomaly_score st
                     + sum_list (map (\<lambda>a. anomaly_weight (alert_type a)) new)\<rparr>)"
  using assms
proof (induction ns arbitrary: acc)
  case Nil
  then show ?case by simp
next
  case (Cons n ns)
  show ?case
    using Cons.IH [OF scan_node_grows [OF Cons.prems]] by simp
qed

lemma scan_mutation_grows:
  assumes "\<exists>new. acc = (as @ new,
              st\<lparr>anomaly_score := anomaly_score st
                     + sum_list (map (\<lambda>a. anomaly_weight (alert_type a)) new)\<rparr>)"
  shows "\<exists>new. scan_mutation P pid acc mu = (as @ new,
              st\<lparr>anomaly_score := anomaly_score st
                     + sum_list (map (\<lambda>a. anomaly_weight (alert_type a)) new)\<rparr>)"
  unfolding scan_mutation_def Let_def
  by (intro raise_alert_grows foldl_scan_node_grows assms | simp split: option.split if_split
      | intro conjI impI allI)+

lemma foldl_scan_mutation_grows:
  assumes "\<exists>new. acc = (as @ new,
              st\<lparr>anomaly_score := anomaly_score st
                     + sum_list (map (\<lambda>a. anomaly_weight (alert_type a)) new)\<rparr>)"
  shows "\<exists>new. foldl (scan_mutation P pid) acc mus = (as @ new,
              st\<lparr>anomaly_score := anomaly_score st
                     + sum_list (map (\<lambda>a. anomaly_weight (alert_type a)) new)\<rparr>)"
  using assms
proof (induction mus arbitrary: acc)
  case Nil
  then show ?case by simp
next
  case (Cons mu mus)
  show ?case
    using Cons.IH [OF scan_mutation_grows [OF Cons.prems]] by simp
qed

lemma scan_mutations_result:
  "foldl (scan_mutation P pid) ([], st) mus
     = (fst (foldl (scan_mutation P pid) ([], st) mus),
        st\<lparr>anomaly_score := anomaly_score st
               + sum_list (map (\<lambda>a. anomaly_weight (alert_type a))
                            (fst (foldl (scan_mutation P pid) ([], st) mus)))\<rparr>)"
proof -
  have "\<exists>new. ([], st) = ([] @ new,
              st\<lparr>anomaly_score := anomaly_score st
                     + sum_list (map (\<lambda>a. anomaly_weight (alert_type a)) new)\<rparr>)"
    by (intro exI [of _ "[]"]) simp
  from foldl_scan_mutation_grows [OF this, of P pid mus]
  obtain new where "foldl (scan_mutation P pid) ([], st) mus = ([] @ new,
              st\<lparr>anomaly_score := anomaly_score st
                     + sum_list (map (\<lambda>a. anomaly_weight (alert_type a)) new)\<rparr>)"
    by blast
  then show ?thesis by simp
qed

lemma on_dom_mutation_result:
  assumes "pages m pid = Some st" and "is_active st"
  shows "on_dom_mutation P pid mus m =
     (fst (on_dom_mutation P pid mus m),
      (if alert_callback m = None then [] else fst (on_dom_mutation P pid mus m)),
      m\<lparr>pages := (pages m)(pid \<mapsto>
          st\<lparr>mutation_count := mutation_count st + length mus,
             anomaly_score := anomaly_score st
               + sum_list (map (\<lambda>a. anomaly_weight (alert_type a)) (fst (on_dom_mutation P pid mus m))),
             alerts := alerts st @ take (nat (max_alerts m - int (length (alerts st))))
                                     (fst (on_dom_mutation P pid mus m))\<rparr>)\<rparr>)"
proof -
  define st1 where "st1 = st\<lparr>mutation_count := mutation_count st + length mus\<rparr>"
  define raised where "raised = fst (foldl (scan_mutation P pid) ([], st1) mus)"
  have scan: "foldl (scan_mutation P pid) ([], st1) mus
     = (raised, st1\<lparr>anomaly_score := anomaly_score st1
               + sum_list (map (\<lambda>a. anomaly_weight (alert_type a)) raised)\<rparr>)"
    unfolding raised_def by (rule scan_mutations_result)
  have run: "on_dom_mutation P pid mus m =
     (raised, (if alert_callback m = None then [] else raised),
      m\<lparr>pages := (pages m)(pid \<mapsto>
          st\<lparr>mutation_count := mutation_count st + length mus,
             anomaly_score := anomaly_score st
               + sum_list (map (\<lambda>a. anomaly_weight (alert_type a)) raised),
             alerts := alerts st @ take (nat (max_alerts m - int (length (alerts st)))) raised\<rparr>)\<rparr>)"
    using assms scan
    by (simp add: on_dom_mutation_def Let_def st1_def [symmetric] emit_alerts_result)
       (simp add: st1_def)
  then have "fst (on_dom_mutation P pid mus m) = raised" by simp
  with run show ?thesis by simp
qed

lemma on_dom_mutation_idle:
  assumes "pages m pid = None \<or> (\<exists>st. pages m pid = Some st \<and> \<not> is_active st)"
  shows "on_dom_mutation P pid mus m = ([], [], m)"
  using assms by (auto simp: on_dom_mutation_def)

lemma on_network_request_result:
  assumes "pages m pid = Some st" and "is_active st"
  shows "on_network_request P pid req m =
     (fst (on_network_request P pid req m),
      (if alert_callback m = None then []
       else (case fst (on_network_request P pid req m) of None \<Rightarrow> [] | Some a \<Rightarrow> [a])),
      m\<lparr>pages := (pages m)(pid \<mapsto>
          st\<lparr>request_count := request_count st + 1,
             blocked_count := blocked_count st
               + (case fst (on_network_request P pid req m) of
                    None \<Rightarrow> 0
                  | Some a \<Rightarrow> if alert_type a = SUSPICIOUS_REQUEST then 1 else 0),
             anomaly_score := anomaly_score st
               + (case fst (on_network_request P pid req m) of
                    None \<Rightarrow> 0
                  | Some a \<Rightarrow> anomaly_weight (alert_type a)),
             alerts := alerts st @ take (nat (max_alerts m - int (length (alerts st))))
                 (case fst (on_network_request P pid req m) of None \<Rightarrow> [] | Some a \<Rightarrow> [a])\<rparr>)\<rparr>)"
  using assms
  by (auto simp: on_network_request_def Let_def emit_alert_result split: option.splits)

lemma on_network_request_idle:
  assumes "pages m pid = None \<or> (\<exists>st. pages m pid = Some st \<and> \<not> is_active st)"
  shows "on_network_request P pid req m = (None, [], m)"
  using assms by (auto simp: on_network_request_def)

lemma monitor_step_capped:
  assumes "\<forall>pid st. pages m pid = Some st \<longrightarrow> int (length (alerts st)) \<le> max 0 (max_alerts m)"
  shows "max_alerts (fst (monitor_step P (m, calls) e)) = max_alerts m
       \<and> (\<forall>pid st. pages (fst (monitor_step P (m, calls) e)) pid = Some st
              \<longrightarrow> int (length (alerts st)) \<le> max 0 (max_alerts m))"
proof (cases e)
  case (StartMonitoring p)
  then show ?thesis
    using assms by (auto simp: start_monitoring_def new_page_state_def split: option.splits)
next
  case (StopMonitoring p)
  then show ?thesis
    using assms by (auto simp: stop_monitoring_def split: option.splits)
next
  case (DomMutation p mus)
  show ?thesis
  proof (cases "\<exists>st. pages m p = Some st \<and> is_active st")
    case False
    then have "on_dom_mutation P p mus m = ([], [], m)"
      by (intro on_dom_mutation_idle) (cases "pages m p"; simp)
    then show ?thesis using DomMutation assms by simp
  next
    case True
    then obtain st where st: "pages m p = Some st" "is_active st" by blast
    have "int (length (alerts st)) \<le> max 0 (max_alerts m)"
      using assms st(1) by blast
    then have b: "int (length (alerts st @ take (nat (max_alerts m - int (length (alerts st))))
                 (fst (on_dom_mutation P p mus m)))) \<le> max 0 (max_alerts m)"
      by simp
    define raised where "raised = fst (on_dom_mutation P p mus m)"
    define st' where "st' = st\<lparr>mutation_count := mutation_count st + length mus,
             anomaly_score := anomaly_score st
               + sum_list (map (\<lambda>a. anomaly_weight (alert_type a)) raised),
             alerts := alerts st @ take (nat (max_alerts m - int (length (alerts st)))) raised\<rparr>"
    have r: "on_dom_mutation P p mus m
               = (raised, (if alert_callback m = None then [] else raised),
                  m\<lparr>pages := (pages m)(p \<mapsto> st')\<rparr>)"
      unfolding st'_def raised_def by (rule on_dom_mutation_result [OF st])
    have a: "int (length (alerts st')) \<le> max 0 (max_alerts m)"
      using b by (simp add: st'_def raised_def del: length_append)
    show ?thesis
      using DomMutation assms a by (auto simp: r)
  qed
next
  case (NetworkRequest p req)
  show ?thesis
  proof (cases "\<exists>st. pages m p = Some st \<and> is_active st")
    case False
    then have "on_network_request P p req m = (None, [], m)"
      by (intro on_network_request_idle) (cases "pages m p"; simp)
    then show ?thesis using NetworkRequest assms by simp
  next
    case True
    then obtain st where st: "pages m p = Some st" "is_active st" by blast
    have "int (length (alerts st)) \<le> max 0 (max_alerts m)"
      using assms st(1) by blast
    then have b: "int (length (alerts st @ take (nat (max_alerts m - int (length (alerts st))))
                 (case fst (on_network_request P p req m) of None \<Rightarrow> [] | Some a \<Rightarrow> [a])))
               \<le> max 0 (max_alerts m)"
      by simp
    define res where "res = fst (on_network_request P p req m)"
    define st' where "st' = st\<lparr>request_count := request_count st + 1,
             blocked_count := blocked_count st
               + (case res of
                    None \<Rightarrow> 0
                  | Some a \<Rightarrow> if alert_type a = SUSPICIOUS_REQUEST then 1 else 0),
             anomaly_score := anomaly_score st
               + (case res of
                    None \<Rightarrow> 0
                  | Some a \<Rightarrow> anomaly_weight (alert_type a)),
             alerts := alerts st @ take (nat (max_alerts m - int (length (alerts st))))
                 (case res of None \<Rightarrow> [] | Some a \<Rightarrow> [a])\<rparr>"
    have r: "on_network_request P p req m
               = (res, (if alert_callback m = None then []
                        else (case res of None \<Rightarrow> [] | Some a \<Rightarrow> [a])),
                  m\<lparr>pages := (pages m)(p \<mapsto> st')\<rparr>)"
      unfolding st'_def res_def by (rule on_network_request_result [OF st])
    have a: "int (length (alerts st')) \<le> max 0 (max_alerts m)"
      using b by (simp add: st'_def res_def del: length_append)
    show ?thesis
      using NetworkRequest assms a by (auto simp: r)
  qed
next
  case (AddKnownThreat u)
  then show ?thesis using assms by (simp add: add_known_threat_def)
next
  case (RemoveKnownThreat u)
  then show ?thesis using assms by (simp add: remove_known_threat_def)
next
  case (Cleanup p)
  then show ?thesis using assms by (auto simp: cleanup_def)
next
  case CleanupAll
  then show ?thesis using assms by (simp add: cleanup_all_def)
qed

lemma run_monitor_capped:
  assumes "\<forall>pid st. pages (fst start) pid = Some st
             \<longrightarrow> int (length (alerts st)) \<le> max 0 (max_alerts (fst start))"
  shows "max_alerts (fst (run_monitor P start es)) = max_alerts (fst start)
       \<and> (\<forall>pid st. pages (fst (run_monitor P start es)) pid = Some st
              \<longrightarrow> int (length (alerts st)) \<le> max 0 (max_alerts (fst start)))"
  using assms
proof (induction es arbitrary: start)
  case Nil
  then show ?case by (simp add: run_monitor_def)
next
  case (Cons e es)
  obtain m calls where s: "start = (m, calls)" by (cases start)
  have step: "max_alerts (fst (monitor_step P (m, calls) e)) = max_alerts m"
    "\<forall>pid st. pages (fst (monitor_step P (m, calls) e)) pid = Some st
              \<longrightarrow> int (length (alerts st)) \<le> max 0 (max_alerts (fst (monitor_step P (m, calls) e)))"
    using monitor_step_capped [of m P calls e] Cons.prems by (simp_all add: s)
  show ?case
    using Cons.IH [OF step(2)] step(1) by (simp add: run_monitor_def s)
qed

lemma full_page_run:
  "run_monitor word_patterns (new_monitor (Some failing_callback) 1, [])
       [StartMonitoring ''p'', NetworkRequest ''p'' mining_request]
     = (full_page_monitor, [mining_alert])"
  by (simp add: run_monitor_def new_monitor_def start_monitoring_def new_page_state_def
      on_network_request_def mining_request_def word_patterns_def emit_alert_def
      failing_callback_def full_page_monitor_def full_page_def mining_alert_def Let_def)

lemma full_page_request:
  "on_network_request word_patterns ''p'' mining_request full_page_monitor
     = (Some mining_alert, [mining_alert],
        full_page_monitor\<lparr>pages := [''p'' \<mapsto> full_page\<lparr>request_count := 2, anomaly_score := 12 / 10\<rparr>]\<rparr>)"
  by (simp add: on_network_request_def mining_request_def word_patterns_def emit_alert_def
      failing_callback_def full_page_monitor_def full_page_def mining_alert_def Let_def
      numeral_2_eq_2)

lemma full_page_mutation:
  "fst (snd (on_dom_mutation word_patterns ''p'' [script_mutation] full_page_monitor))
     = fst (on_dom_mutation word_patterns ''p'' [script_mutation] full_page_monitor)
   \<and> map alert_type (fst (on_dom_mutation word_patterns ''p'' [script_mutation] full_page_monitor))
     = [SCRIPT_INJECTION, DOM_CLOBBERING]
   \<and> pages (snd (snd (on_dom_mutation word_patterns ''p'' [script_mutation] full_page_monitor)))
     = [''p'' \<mapsto> full_page\<lparr>mutation_count := 1, anomaly_score := 105 / 100\<rparr>]"
  by (simp add: on_dom_mutation_def script_mutation_def scan_mutation_def scan_node_def
      raise_alert_def word_patterns_def emit_alert_def lower_def lower_char_def
      failing_callback_def full_page_monitor_def full_page_def Let_def)

text \<open>
  C10. From a new monitor with the limit \<open>n\<close>, after any run of calls of its methods, the
  alerts list of every page holds at most \<open>n\<close> alerts (none when \<open>n\<close> is negative). For an
  active page, \<open>on_dom_mutation\<close> and \<open>on_network_request\<close> append the alerts they raise to the
  alerts list, in order, as long as there is room below the limit, and drop the rest: at the
  limit the list stays as it is, so the oldest alerts are kept. Whatever is dropped, the
  callback, when there is one, is called with every alert raised, also when it fails, and
  the counters and the anomaly score change as for alerts that are kept: the mutations and
  requests are counted, a request to a known threat is counted as blocked, and each alert
  adds the weight of its type to the anomaly score.
\<close>

theorem alerts_capped:
  "(\<forall>p s. pages (fst (run_monitor P (new_monitor callback n, []) es)) p = Some s
        \<longrightarrow> int (length (alerts s)) \<le> max 0 n)
   \<and> (pages m pid = Some st \<and> is_active st \<longrightarrow>
        (let (raised, calls, m') = on_dom_mutation P pid mus m
         in \<exists>st'. pages m' = (pages m)(pid \<mapsto> st')
              \<and> alerts st' = alerts st @ take (nat (max_alerts m - int (length (alerts st)))) raised
              \<and> (max_alerts m \<le> int (length (alerts st)) \<longrightarrow> alerts st' = alerts st)
              \<and> calls = (if alert_callback m = None then [] else raised)
              \<and> mutation_count st' = mutation_count st + length mus
              \<and> anomaly_score st'
                   = anomaly_score st + sum_list (map (\<lambda>a. anomaly_weight (alert_type a)) raised))
      \<and> (let (res, calls, m') = on_network_request P pid req m;
              raised = (case res of None \<Rightarrow> [] | Some a \<Rightarrow> [a])
         in \<exists>st'. pages m' = (pages m)(pid \<mapsto> st')
              \<and> alerts st' = alerts st @ take (nat (max_alerts m - int (length (alerts st)))) raised
              \<and> (max_alerts m \<le> int (length (alerts st)) \<longrightarrow> alerts st' = alerts st)
              \<and> calls = (if alert_callback m = None then [] else raised)
              \<and> request_count st' = request_count st + 1
              \<and> blocked_count st'
                   = blocked_count st + length (filter (\<lambda>a. alert_type a = SUSPICIOUS_REQUEST) raised)
              \<and> anomaly_score st'
                   = anomaly_score st + sum_list (map (\<lambda>a. anomaly_weight (alert_type a)) raised)))"
proof (intro conjI impI)
  have "\<forall>p s. pages (fst (new_monitor callback n, [])) p = Some s
          \<longrightarrow> int (length (alerts s)) \<le> max 0 (max_alerts (fst (new_monitor callback n, [])))"
    by (simp add: new_monitor_def)
  from run_monitor_capped [OF this, of P es]
  show "\<forall>p s. pages (fst (run_monitor P (new_monitor callback n, []) es)) p = Some s
        \<longrightarrow> int (length (alerts s)) \<le> max 0 n"
    by (simp add: new_monitor_def)
next
  assume "pages m pid = Some st \<and> is_active st"
  then have st: "pages m pid = Some st" "is_active st" by simp_all
  define raised where "raised = fst (on_dom_mutation P pid mus m)"
  define st' where "st' = st\<lparr>mutation_count := mutation_count st + length mus,
             anomaly_score := anomaly_score st
               + sum_list (map (\<lambda>a. anomaly_weight (alert_type a)) raised),
             alerts := alerts st @ take (nat (max_alerts m - int (length (alerts st)))) raised\<rparr>"
  have r: "on_dom_mutation P pid mus m
               = (raised, (if alert_callback m = None then [] else raised),
                  m\<lparr>pages := (pages m)(pid \<mapsto> st')\<rparr>)"
    unfolding st'_def raised_def by (rule on_dom_mutation_result [OF st])
  have "pages (m\<lparr>pages := (pages m)(pid \<mapsto> st')\<rparr>) = (pages m)(pid \<mapsto> st')
      \<and> alerts st' = alerts st @ take (nat (max_alerts m - int (length (alerts st)))) raised
      \<and> (max_alerts m \<le> int (length (alerts st)) \<longrightarrow> alerts st' = alerts st)
      \<and> mutation_count st' = mutation_count st + length mus
      \<and> anomaly_score st'
           = anomaly_score st + sum_list (map (\<lambda>a. anomaly_weight (alert_type a)) raised)"
    by (simp add: st'_def)
  then show "let (raised, calls, m') = on_dom_mutation P pid mus m
         in \<exists>st'. pages m' = (pages m)(pid \<mapsto> st')
              \<and> alerts st' = alerts st @ take (nat (max_alerts m - int (length (alerts st)))) raised
              \<and> (max_alerts m \<le> int (length (alerts st)) \<longrightarrow> alerts st' = alerts st)
              \<and> calls = (if alert_callback m = None then [] else raised)
              \<and> mutation_count st' = mutation_count st + length mus
              \<and> anomaly_score st'
                   = anomaly_score st + sum_list (map (\<lambda>a. anomaly_weight (alert_type a)) raised)"
    unfolding r Let_def prod.case by (intro exI [of _ st']) simp
next
  assume "pages m pid = Some st \<and> is_active st"
  then have st: "pages m pid = Some st" "is_active st" by simp_all
  define res where "res = fst (on_network_request P pid req m)"
  define raised where "raised = (case res of None \<Rightarrow> [] | Some a \<Rightarrow> [a])"
  define st' where "st' = st\<lparr>request_count := request_count st + 1,
             blocked_count := blocked_count st
               + (case res of
                    None \<Rightarrow> 0
                  | Some a \<Rightarrow> if alert_type a = SUSPICIOUS_REQUEST then 1 else 0),
             anomaly_score := anomaly_score st
               + (case res of
                    None \<Rightarrow> 0
                  | Some a \<Rightarrow> anomaly_weight (alert_type a)),
             alerts := alerts st @ take (nat (max_alerts m - int (length (alerts st))))
                 (case res of None \<Rightarrow> [] | Some a \<Rightarrow> [a])\<rparr>"
  have r: "on_network_request P pid req m
               = (res, (if alert_callback m = None then []
                        else (case res of None \<Rightarrow> [] | Some a \<Rightarrow> [a])),
                  m\<lparr>pages := (pages m)(pid \<mapsto> st')\<rparr>)"
    unfolding st'_def res_def by (rule on_network_request_result [OF st])
  have "pages (m\<lparr>pages := (pages m)(pid \<mapsto> st')\<rparr>) = (pages m)(pid \<mapsto> st')
      \<and> alerts st' = alerts st @ take (nat (max_alerts m - int (length (alerts st)))) raised
      \<and> (max_alerts m \<le> int (length (alerts st)) \<longrightarrow> alerts st' = alerts st)
      \<and> request_count st' = request_count st + 1
      \<and> blocked_count st'
           = blocked_count st + length (filter (\<lambda>a. alert_type a = SUSPICIOUS_REQUEST) raised)
      \<and> anomaly_score st'
           = anomaly_score st + sum_list (map (\<lambda>a. anomaly_weight (alert_type a)) raised)"
    by (cases res) (simp_all add: st'_def raised_def)
  then show "let (res, calls, m') = on_network_request P pid req m;
              raised = (case res of None \<Rightarrow> [] | Some a \<Rightarrow> [a])
         in \<exists>st'. pages m' = (pages m)(pid \<mapsto> st')
              \<and> alerts st' = alerts st @ take (nat (max_alerts m - int (length (alerts st)))) raised
              \<and> (max_alerts m \<le> int (length (alerts st)) \<longrightarrow> alerts st' = alerts st)
              \<and> calls = (if alert_callback m = None then [] else raised)
              \<and> request_count st' = request_count st + 1
              \<and> blocked_count st'
                   = blocked_count st + length (filter (\<lambda>a. alert_type a = SUSPICIOUS_REQUEST) raised)
              \<and> anomaly_score st'
                   = anomaly_score st + sum_list (map (\<lambda>a. anomaly_weight (alert_type a)) raised)"
    unfolding r Let_def prod.case raised_def [symmetric] by (intro exI [of _ st']) simp
qed

theorem alerts_capped_witness:
  "pages full_page_monitor ''p'' = Some full_page
   \<and> is_active full_page
   \<and> int (length (alerts full_page)) = 1
   \<and> max_alerts full_page_monitor = 1
   \<and> run_monitor word_patterns (new_monitor (Some failing_callback) 1, [])
        [StartMonitoring ''p'', NetworkRequest ''p'' mining_request]
      = (full_page_monitor, [mining_alert])
   \<and> on_network_request word_patterns ''p'' mining_request full_page_monitor
      = (Some mining_alert, [mining_alert],
         full_page_monitor\<lparr>pages := [''p'' \<mapsto> full_page\<lparr>request_count := 2, anomaly_score := 12 / 10\<rparr>]\<rparr>)
   \<and> fst (snd (on_dom_mutation word_patterns ''p'' [script_mutation] full_page_monitor))
      = fst (on_dom_mutation word_patterns ''p'' [script_mutation] full_page_monitor)
   \<and> map alert_type (fst (on_dom_mutation word_patterns ''p'' [script_mutation] full_page_monitor))
      = [SCRIPT_INJECTION, DOM_CLOBBERING]
   \<and> pages (snd (snd (on_dom_mutation word_patterns ''p'' [script_mutation] full_page_monitor)))
      = [''p'' \<mapsto> full_page\<lparr>mutation_count := 1, anomaly_score := 105 / 100\<rparr>]
   \<and> (\<exists>st'. pages (snd (snd (on_dom_mutation word_patterns ''p'' [script_mutation] full_page_monitor)))
               = (pages full_page_monitor)(''p'' \<mapsto> st')
            \<and> alerts st' = alerts full_page
            \<and> mutation_count st' = mutation_count full_page + 1)"
proof -
  have h: "pages full_page_monitor ''p'' = Some full_page" "is_active full_page"
    "max_alerts full_page_monitor = 1"
    by (simp_all add: full_page_monitor_def full_page_def)
  have "\<forall>p s. pages (fst (run_monitor word_patterns (new_monitor (Some failing_callback) 1, [])
                  [StartMonitoring ''p'', NetworkRequest ''p'' mining_request])) p = Some s
          \<longrightarrow> int (length (alerts s)) \<le> max 0 1"
    using alerts_capped [where P = word_patterns and callback = "Some failing_callback" and n = 1
        and es = "[StartMonitoring ''p'', NetworkRequest ''p'' mining_request]"
        and m = full_page_monitor and pid = "''p''" and st = full_page
        and mus = "[script_mutation]" and req = mining_request]
    by (rule conjunct1)
  then have "int (length (alerts full_page)) \<le> 1"
    using h(1) unfolding full_page_run by simp
  moreover have "1 \<le> int (length (alerts full_page))"
    by (simp add: full_page_def)
  ultimately have c: "int (length (alerts full_page)) = 1"
    by simp
  have "let (raised, calls, m') = on_dom_mutation word_patterns ''p'' [script_mutation] full_page_monitor
         in \<exists>st'. pages m' = (pages full_page_monitor)(''p'' \<mapsto> st')
              \<and> alerts st' = alerts full_page
                    @ take (nat (max_alerts full_page_monitor - int (length (alerts full_page)))) raised
              \<and> (max_alerts full_page_monitor \<le> int (length (alerts full_page))
                    \<longrightarrow> alerts st' = alerts full_page)
              \<and> calls = (if alert_callback full_page_monitor = None then [] else raised)
              \<and> mutation_count st' = mutation_count full_page + length [script_mutation]
              \<and> anomaly_score st'
                   = anomaly_score full_page
                     + sum_list (map (\<lambda>a. anomaly_weight (alert_type a)) raised)"
    using alerts_capped [where P = word_patterns and callback = "Some failing_callback" and n = 1
        and es = "[StartMonitoring ''p'', NetworkRequest ''p'' mining_request]"
        and m = full_page_monitor and pid = "''p''" and st = full_page
        and mus = "[script_mutation]" and req = mining_request] h(1,2)
    by blast
  then have d: "\<exists>st'. pages (snd (snd (on_dom_mutation word_patterns ''p'' [script_mutation] full_page_monitor)))
               = (pages full_page_monitor)(''p'' \<mapsto> st')
            \<and> alerts st' = alerts full_page
            \<and> mutation_count st' = mutation_count full_page + 1"
    using h(3) c by (auto simp: Let_def split: prod.splits)
  show ?thesis
    using h c d full_page_run full_page_request full_page_mutation by simp
qed

end
